theory Spec2Isabelle
  imports Complex_Main "HOL-Library.Multiset"
begin

section \<open>Data model of the trivia rooms (trivia-room.js, roombase.js, user.js)\<close>

text \<open>
  A user object is referenced by identity in the source (\<^verbatim>\<open>u === user\<close>); the
  model gives every user object a number \<open>uid\<close> and compares those. The nickname is
  set once, before the user can join any room.
\<close>

record user =
  uid :: nat
  nickname :: string

text \<open>\<^verbatim>\<open>answerResult = { INCORRECT: 0, CORRECT: 1, SKIPPED: 2 }\<close>\<close>

datatype answerResult = INCORRECT | CORRECT | SKIPPED

text \<open>
  \<^verbatim>\<open>class TriviaQuestion\<close>. The difficulty is the string the question supplier sent
  (\<^verbatim>\<open>'easy'\<close>, \<^verbatim>\<open>'medium'\<close>, \<^verbatim>\<open>'hard'\<close>, or anything else).
\<close>

record TriviaQuestion =
  question :: string
  answers :: "string list"
  correctAnswerIndex :: int
  categoryName :: string
  difficulty :: string

definition getPointValue :: "TriviaQuestion \<Rightarrow> int" where
  "getPointValue q =
     (if difficulty q = ''easy'' then 10
      else if difficulty q = ''medium'' then 25
      else if difficulty q = ''hard'' then 50
      else 0)"

record Category =
  cat_id :: nat
  cat_name :: string

text \<open>
  \<^verbatim>\<open>class UserStatistics\<close>: \<open>selectedAnswerIndex = -1\<close> means that no answer is
  selected. The constructor is only ever called without arguments.
\<close>

record UserStatistics =
  points :: int
  pointsChange :: int
  questionsRight :: nat
  questionsWrong :: nat
  selectedAnswerIndex :: int

definition new_UserStatistics :: UserStatistics where
  "new_UserStatistics =
     \<lparr>points = 0, pointsChange = 0, questionsRight = 0, questionsWrong = 0,
      selectedAnswerIndex = -1\<rparr>"

record RoomConfiguration =
  category :: "Category option"
  cfg_difficulty :: "string option"
  maxSeconds :: int
  canSkipQuestions :: bool
  questionCount :: nat

definition new_RoomConfiguration :: RoomConfiguration where
  "new_RoomConfiguration =
     \<lparr>category = None, cfg_difficulty = None, maxSeconds = 30, canSkipQuestions = False,
      questionCount = 0\<rparr>"

section \<open>Final ranking: \<^verbatim>\<open>compareStats\<close> and the sort of \<^verbatim>\<open>sendGameOverToAll\<close>\<close>

text \<open>
  The quotient of two JavaScript numbers that hold natural numbers: \<open>0 / 0\<close> is
  \<open>NaN\<close>, \<open>n / 0\<close> is \<open>Infinity\<close> for \<open>n > 0\<close>. A finite quotient is kept as the
  exact rational; rounding to a double is monotone and keeps apart two different
  quotients of counts below \<open>2^26\<close>, so the comparisons below agree with the ones
  on doubles there.
\<close>

datatype js_number = NaN | PosInfinity | Num rat

definition js_div :: "nat \<Rightarrow> nat \<Rightarrow> js_number" where
  "js_div a b =
     (if b = 0 then (if a = 0 then NaN else PosInfinity)
      else Num (of_nat a / of_nat b))"

text \<open>\<open>x > y\<close> on JavaScript numbers: false as soon as one side is \<open>NaN\<close>.\<close>

fun js_gt :: "js_number \<Rightarrow> js_number \<Rightarrow> bool" where
  "js_gt NaN _ = False"
| "js_gt _ NaN = False"
| "js_gt PosInfinity PosInfinity = False"
| "js_gt PosInfinity (Num _) = True"
| "js_gt (Num _) PosInfinity = False"
| "js_gt (Num x) (Num y) = (y < x)"

definition js_lt :: "js_number \<Rightarrow> js_number \<Rightarrow> bool" where
  "js_lt x y = js_gt y x"

definition compareStats :: "UserStatistics \<Rightarrow> UserStatistics \<Rightarrow> int" where
  "compareStats a b =
     (if points a > points b then -1
      else if points a < points b then 1
      else
        (let aQCount = questionsRight a + questionsWrong a;
             bQCount = questionsRight b + questionsWrong b;
             aRatio = js_div (questionsRight a) aQCount;
             bRatio = js_div (questionsRight b) bQCount
         in if js_gt aRatio bRatio then -1
            else if js_lt aRatio bRatio then 1
            else 0))"

text \<open>
  \<^verbatim>\<open>Array.prototype.sort(compareFn)\<close> as Node.js runs it (the TimSort of V8, from
  Node.js 11 on). The comparison function is called on pairs of elements and only
  the sign of its result is used. The array is cut into runs from left to right:

  \<^item> \<^verbatim>\<open>ComputeMinRunLength\<close>: the least length of a run; the length of the array
    itself when it is below 64.
  \<^item> \<^verbatim>\<open>CountAndMakeRun\<close>: the longest run at the front. The second element is
    compared with the first; when it is smaller the run is strictly descending, it
    goes on while every element is smaller than the one before it, and it is
    reversed; otherwise the run goes on while no element is smaller than the one
    before it.
  \<^item> \<^verbatim>\<open>BinaryInsertionSort\<close>: a run shorter than the least length is filled up
    with the elements that follow it. Each one is the pivot of a binary search in
    the run: the pivot is compared with the middle element, the search goes on to
    the left of it when the pivot is smaller and to the right of it otherwise; the
    pivot is put where the search ends.

  An array of fewer than 64 elements is therefore one run, and the definitions
  below make the same comparisons in the same order as the engine. From 64 elements
  on the engine merges the runs, in an order that depends on their lengths and with
  a galloping search; here the runs are merged from left to right by the plain
  stable merge. Both are stable sorts, so they give the same array whenever the
  comparison function is a consistent one (a strict weak order on the elements).
\<close>

function minRunFrom :: "nat \<Rightarrow> nat \<Rightarrow> nat" where
  "minRunFrom n r = (if 64 \<le> n then minRunFrom (n div 2) (max r (n mod 2)) else n + r)"
  by pat_completeness auto
termination
  by (relation "measure (\<lambda>(n, r). n)") auto

definition computeMinRunLength :: "nat \<Rightarrow> nat" where
  "computeMinRunLength n = minRunFrom n 0"

text \<open>
  The loop of \<^verbatim>\<open>CountAndMakeRun\<close> after the first two elements: the elements of
  the run that follow \<open>previous\<close>, and the elements left over.
\<close>

fun runTail :: "bool \<Rightarrow> ('a \<Rightarrow> 'a \<Rightarrow> int) \<Rightarrow> 'a \<Rightarrow> 'a list \<Rightarrow> 'a list \<times> 'a list" where
  "runTail isDescending cmp previous [] = ([], [])"
| "runTail isDescending cmp previous (current # rest) =
     (let order = cmp current previous
      in if (if isDescending then order \<ge> 0 else order < 0)
         then ([], current # rest)
         else (case runTail isDescending cmp current rest of
                 (run, rest') \<Rightarrow> (current # run, rest')))"

fun countAndMakeRun :: "('a \<Rightarrow> 'a \<Rightarrow> int) \<Rightarrow> 'a list \<Rightarrow> 'a list \<times> 'a list" where
  "countAndMakeRun cmp [] = ([], [])"
| "countAndMakeRun cmp [x] = ([x], [])"
| "countAndMakeRun cmp (elementHigh # elementLow # xs) =
     (let isDescending = (cmp elementLow elementHigh < 0)
      in case runTail isDescending cmp elementLow xs of
           (run, rest) \<Rightarrow>
             (if isDescending then rev (elementHigh # elementLow # run)
              else elementHigh # elementLow # run,
              rest))"

text \<open>The binary search of \<^verbatim>\<open>BinaryInsertionSort\<close> for the place of \<open>pivot\<close> in \<open>a\<close>.\<close>

function binarySearch :: "('a \<Rightarrow> 'a \<Rightarrow> int) \<Rightarrow> 'a \<Rightarrow> 'a list \<Rightarrow> nat \<Rightarrow> nat \<Rightarrow> nat" where
  "binarySearch cmp pivot a left right =
     (if left < right
      then (let mid = left + (right - left) div 2
            in if cmp pivot (a ! mid) < 0
               then binarySearch cmp pivot a left mid
               else binarySearch cmp pivot a (mid + 1) right)
      else left)"
  by pat_completeness auto
termination
  by (relation "measure (\<lambda>(cmp, pivot, a, left, right). right - left)") auto

definition insertPivot :: "('a \<Rightarrow> 'a \<Rightarrow> int) \<Rightarrow> 'a list \<Rightarrow> 'a \<Rightarrow> 'a list" where
  "insertPivot cmp a pivot =
     (let left = binarySearch cmp pivot a 0 (length a)
      in take left a @ pivot # drop left a)"

definition binaryInsertionSort :: "('a \<Rightarrow> 'a \<Rightarrow> int) \<Rightarrow> 'a list \<Rightarrow> 'a list \<Rightarrow> 'a list" where
  "binaryInsertionSort cmp run extra = foldl (insertPivot cmp) run extra"

text \<open>
  The main loop of \<^verbatim>\<open>ArrayTimSortImpl\<close>: the runs of the array, each one filled
  up to the least length (or to what is left of the array).
\<close>

function timSortRuns :: "('a \<Rightarrow> 'a \<Rightarrow> int) \<Rightarrow> nat \<Rightarrow> 'a list \<Rightarrow> 'a list list" where
  "timSortRuns cmp minRunLength xs =
     (if xs = [] then []
      else
        (let run = fst (countAndMakeRun cmp xs);
             rest = snd (countAndMakeRun cmp xs)
         in if length run < minRunLength
            then (let forcedRunLength = min minRunLength (length xs);
                      k = forcedRunLength - length run
                  in binaryInsertionSort cmp run (take k rest)
                       # timSortRuns cmp minRunLength (drop k rest))
            else run # timSortRuns cmp minRunLength rest))"
  by pat_completeness auto
termination
proof (relation "measure (\<lambda>(cmp, minRunLength, xs). length xs)")
  have tail: "length (snd (runTail d cmp p xs)) \<le> length xs"
    for d and cmp :: "'a \<Rightarrow> 'a \<Rightarrow> int" and p xs
    by (induction xs arbitrary: p) (simp_all add: Let_def case_prod_beta le_SucI)
  have shorter: "length (snd (countAndMakeRun cmp xs)) < length xs"
    if "xs \<noteq> []" for cmp :: "'a \<Rightarrow> 'a \<Rightarrow> int" and xs
  proof (cases xs)
    case Nil
    with that show ?thesis by simp
  next
    case (Cons h t)
    show ?thesis
    proof (cases t)
      case Nil
      with Cons show ?thesis by simp
    next
      case (Cons l ys)
      with \<open>xs = h # t\<close> tail [of "cmp l h < 0" cmp l ys] show ?thesis
        by (simp add: Let_def case_prod_beta)
    qed
  qed
  show "wf (measure (\<lambda>(cmp :: 'a \<Rightarrow> 'a \<Rightarrow> int, minRunLength :: nat, xs :: 'a list). length xs))"
    by simp
  show "((cmp, minRunLength, drop k rest), cmp, minRunLength, xs)
      \<in> measure (\<lambda>(cmp, minRunLength, xs). length xs)"
    if "xs \<noteq> []" "rest = snd (countAndMakeRun cmp xs)"
    for cmp :: "'a \<Rightarrow> 'a \<Rightarrow> int" and minRunLength :: nat and xs rest :: "'a list" and k
    using shorter [OF that(1), of cmp] that(2) by simp
  show "((cmp, minRunLength, rest), cmp, minRunLength, xs)
      \<in> measure (\<lambda>(cmp, minRunLength, xs). length xs)"
    if "xs \<noteq> []" "rest = snd (countAndMakeRun cmp xs)"
    for cmp :: "'a \<Rightarrow> 'a \<Rightarrow> int" and minRunLength :: nat and xs rest :: "'a list"
    using shorter [OF that(1), of cmp] that(2) by simp
qed

declare minRunFrom.simps [simp del] binarySearch.simps [simp del] timSortRuns.simps [simp del]

text \<open>The stable merge of two runs: an element of the right run goes first only when
  it is smaller than the element of the left run.\<close>

fun mergeRuns :: "('a \<Rightarrow> 'a \<Rightarrow> int) \<Rightarrow> 'a list \<Rightarrow> 'a list \<Rightarrow> 'a list" where
  "mergeRuns cmp [] bs = bs"
| "mergeRuns cmp as [] = as"
| "mergeRuns cmp (a # as) (b # bs) =
     (if cmp b a < 0 then b # mergeRuns cmp (a # as) bs
      else a # mergeRuns cmp as (b # bs))"

definition js_sort :: "('a \<Rightarrow> 'a \<Rightarrow> int) \<Rightarrow> 'a list \<Rightarrow> 'a list" where
  "js_sort cmp xs =
     (if length xs < 2 then xs
      else foldl (mergeRuns cmp) [] (timSortRuns cmp (computeMinRunLength (length xs)) xs))"

text \<open>
  An entry of the list that \<^verbatim>\<open>getUserStats\<close> compiles: the nickname together with
  the fields of the user's statistics (\<open>None\<close> when the user has no statistics
  entry: spreading \<^verbatim>\<open>undefined\<close> adds no field).
\<close>

type_synonym statsEntry = "string \<times> UserStatistics option"

text \<open>
  \<^verbatim>\<open>compareStats\<close> on two entries. When an entry has no statistics fields, every
  field read is \<^verbatim>\<open>undefined\<close>, every comparison is false and the result is 0.
\<close>

definition compareEntries :: "statsEntry \<Rightarrow> statsEntry \<Rightarrow> int" where
  "compareEntries a b =
     (case (snd a, snd b) of
        (Some sa, Some sb) \<Rightarrow> compareStats sa sb
      | _ \<Rightarrow> 0)"

section \<open>Errors\<close>

text \<open>A thrown JavaScript error, with its \<^verbatim>\<open>message\<close>.\<close>

datatype js_error = JsError string | JsTypeError string

fun message :: "js_error \<Rightarrow> string" where
  "message (JsError m) = m"
| "message (JsTypeError m) = m"

section \<open>The room: state, emitted events, scheduled callbacks\<close>

datatype emitted =
    UserJoined string
  | UserLeft string
  | UserList "string list"
  | ChatMessage string string
  | EnteredGameRoom string
  | LeftGameRoom
  | SetUserStats "statsEntry list"
  | SetQuestion TriviaQuestion nat nat
  | SecondsLeft int
  | EndQuestion
  | AnswerResult answerResult
  | GameOver "statsEntry list"

datatype lifecycle = NEW_ROOM | DELETE_ROOM | UPDATE_ROOM

text \<open>
  What a method sends: \<open>ToRoom\<close> is \<^verbatim>\<open>io.to(this.id).emit\<close>, \<open>ToUser\<close> is
  \<^verbatim>\<open>user.socket.emit\<close> (the user's \<open>uid\<close>), \<open>Lifecycle\<close> is
  \<^verbatim>\<open>triviaEventEmitter.emit\<close>.
\<close>

datatype effect = ToRoom emitted | ToUser nat emitted | Lifecycle lifecycle

text \<open>The value of \<^verbatim>\<open>user.room\<close>, as seen from the modelled room.\<close>

datatype roomref = NoRoom | ThisRoom | OtherRoom

text \<open>
  The callback that the room has outstanding: a countdown tick
  (\<^verbatim>\<open>setTimeout(timer, 1000, room)\<close>, the one \<^verbatim>\<open>timerId\<close> names), a delayed
  \<^verbatim>\<open>requestNewQuestion\<close> (\<^verbatim>\<open>setTimeout(..., 5000)\<close>), or the reply to a question
  fetch. Every callback of the source schedules at most one successor, so a room
  has at most one outstanding.
\<close>

datatype callback = Timer | DelayedRequest | FetchReply

text \<open>
  The \<^verbatim>\<open>TriviaRoom\<close> object, and with it the state outside the object that its
  methods read and write: the \<^verbatim>\<open>'answer'\<close> listeners that \<^verbatim>\<open>addUser\<close> registered
  on the users' sockets (one \<open>uid\<close> per registration), the users' \<^verbatim>\<open>room\<close>
  back-references, whether the room is in the module's \<^verbatim>\<open>rooms\<close> map, the
  outstanding callback, and everything emitted so far.
\<close>

record room =
  room_id :: string
  room_name :: string
  users :: "user list"
  secondsLeft :: int
  currentQuestion :: "TriviaQuestion option"
  deleteOnLastUser :: bool
  config :: RoomConfiguration
  acceptAnswers :: bool
  questionsAnswered :: nat
  userStats :: "string \<rightharpoonup> UserStatistics"
  answerListeners :: "nat list"
  userRoom :: "nat \<Rightarrow> roomref"
  listed :: bool
  pending :: "callback option"
  outbox :: "effect list"

definition emit :: "effect \<Rightarrow> room \<Rightarrow> room" where
  "emit e r = r\<lparr>outbox := outbox r @ [e]\<rparr>"

section \<open>\<^verbatim>\<open>RoomBase\<close> and \<^verbatim>\<open>TriviaRoom\<close> methods\<close>

text \<open>\<^verbatim>\<open>Array.prototype.findIndex\<close>: the first index that satisfies \<open>P\<close>, or \<open>-1\<close>.\<close>

fun findIndex :: "('a \<Rightarrow> bool) \<Rightarrow> 'a list \<Rightarrow> int" where
  "findIndex P [] = -1"
| "findIndex P (x # xs) =
     (if P x then 0
      else (let i = findIndex P xs in if i = -1 then -1 else i + 1))"

text \<open>
  \<^verbatim>\<open>xs.splice(start, 1)\<close>: a negative \<open>start\<close> counts from the end
  (\<open>max (len + start) 0\<close>), a \<open>start\<close> beyond the end is the end; one element is
  removed there when there is one.
\<close>

definition splice1 :: "int \<Rightarrow> 'a list \<Rightarrow> 'a list" where
  "splice1 start xs =
     (let len = int (length xs);
          k = (if start < 0 then max (len + start) 0 else min start len)
      in take (nat k) xs @ drop (nat k + 1) xs)"

definition isUserInRoom :: "room \<Rightarrow> user \<Rightarrow> bool" where
  "isUserInRoom r u = (findIndex (\<lambda>x. uid x = uid u) (users r) \<noteq> -1)"

definition isGameOver :: "room \<Rightarrow> bool" where
  "isGameOver r =
     (questionsAnswered r = questionCount (config r) \<and> questionCount (config r) \<noteq> 0)"

definition getUserStats :: "room \<Rightarrow> statsEntry list" where
  "getUserStats r = map (\<lambda>u. (nickname u, userStats r (nickname u))) (users r)"

definition sendUserStatsToAll :: "room \<Rightarrow> room" where
  "sendUserStatsToAll r = emit (ToRoom (SetUserStats (getUserStats r))) r"

definition sendCurrentQuestionToOne :: "room \<Rightarrow> user \<Rightarrow> room" where
  "sendCurrentQuestionToOne r u =
     (case currentQuestion r of
        None \<Rightarrow> r
      | Some q \<Rightarrow>
          emit (ToUser (uid u)
            (SetQuestion q (questionsAnswered r + 1) (questionCount (config r)))) r)"

definition sendCurrentQuestionToAll :: "room \<Rightarrow> room" where
  "sendCurrentQuestionToAll r =
     (case currentQuestion r of
        None \<Rightarrow> r
      | Some q \<Rightarrow>
          emit (ToRoom
            (SetQuestion q (questionsAnswered r + 1) (questionCount (config r)))) r)"

text \<open>The payload of the \<^verbatim>\<open>'game over'\<close> event: the entries sorted by \<^verbatim>\<open>compareStats\<close>.\<close>

definition gameOverRanking :: "statsEntry list \<Rightarrow> statsEntry list" where
  "gameOverRanking stats = js_sort compareEntries stats"

definition sendGameOverToAll :: "room \<Rightarrow> room" where
  "sendGameOverToAll r = emit (ToRoom (GameOver (gameOverRanking (getUserStats r)))) r"

definition sendGameOverToOne :: "room \<Rightarrow> user \<Rightarrow> room" where
  "sendGameOverToOne r u =
     emit (ToUser (uid u) (GameOver (gameOverRanking (getUserStats r)))) r"

text \<open>\<^verbatim>\<open>RoomBase.sendMessage\<close>\<close>

definition sendMessage :: "room \<Rightarrow> user \<Rightarrow> string \<Rightarrow> room" where
  "sendMessage r u msg = emit (ToRoom (ChatMessage (nickname u) msg)) r"

text \<open>
  \<^verbatim>\<open>clearTimeout(room.timerId)\<close> cancels the countdown tick when one is outstanding;
  when the tick that \<^verbatim>\<open>timerId\<close> names has fired already it does nothing.
\<close>

definition clearTimeout :: "callback option \<Rightarrow> callback option" where
  "clearTimeout p = (if p = Some Timer then None else p)"

definition deleteRoom :: "room \<Rightarrow> room" where
  "deleteRoom r =
     (if listed r
      then emit (Lifecycle DELETE_ROOM) (r\<lparr>pending := clearTimeout (pending r), listed := False\<rparr>)
      else r)"

text \<open>
  \<^verbatim>\<open>RoomBase.removeUser\<close>. \<^verbatim>\<open>user.leaveRoom()\<close> clears the user's back-reference.
\<close>

definition RoomBase_removeUser :: "room \<Rightarrow> user \<Rightarrow> room" where
  "RoomBase_removeUser r u =
     (let userIndex = findIndex (\<lambda>x. uid x = uid u) (users r);
          r1 = r\<lparr>users := splice1 userIndex (users r)\<rparr>;
          r2 = r1\<lparr>userRoom := (userRoom r1)(uid u := NoRoom)\<rparr>
      in emit (ToRoom (UserLeft (nickname u))) r2)"

text \<open>\<^verbatim>\<open>TriviaRoom.removeUser\<close>\<close>

definition removeUser :: "room \<Rightarrow> user \<Rightarrow> room" where
  "removeUser r u =
     (let r1 = RoomBase_removeUser r u;
          r2 = r1\<lparr>userStats := (userStats r1)(nickname u := None)\<rparr>;
          r3 = r2\<lparr>answerListeners := filter (\<lambda>i. i \<noteq> uid u) (answerListeners r2)\<rparr>;
          r4 = emit (ToUser (uid u) LeftGameRoom) r3;
          r5 = sendUserStatsToAll r4
      in if users r5 = [] \<and> deleteOnLastUser r5
         then deleteRoom r5
         else emit (Lifecycle UPDATE_ROOM) r5)"

text \<open>
  \<^verbatim>\<open>RoomBase.addUser\<close>, on a \<^verbatim>\<open>TriviaRoom\<close>. \<^verbatim>\<open>user.room.removeUser(user)\<close> is
  the room's own \<^verbatim>\<open>removeUser\<close> when the back-reference names this room; when
  it names another room, that room is outside the model and only the cleared
  back-reference is kept.
\<close>

definition RoomBase_addUser :: "room \<Rightarrow> user \<Rightarrow> room" where
  "RoomBase_addUser r u =
     (if isUserInRoom r u then r
      else
        (let r1 = (case userRoom r (uid u) of
                     NoRoom \<Rightarrow> r
                   | ThisRoom \<Rightarrow> removeUser r u
                   | OtherRoom \<Rightarrow> r\<lparr>userRoom := (userRoom r)(uid u := NoRoom)\<rparr>);
             r2 = r1\<lparr>users := users r1 @ [u]\<rparr>;
             r3 = r2\<lparr>userRoom := (userRoom r2)(uid u := ThisRoom)\<rparr>;
             r4 = emit (ToRoom (UserJoined (nickname u))) r3
         in emit (ToUser (uid u) (UserList (map nickname (users r4)))) r4))"

text \<open>
  The \<^verbatim>\<open>'answer'\<close> listener that \<^verbatim>\<open>TriviaRoom.addUser\<close> registers on the user's
  socket.
\<close>

definition answerListener :: "room \<Rightarrow> user \<Rightarrow> int \<Rightarrow> room" where
  "answerListener r u answerNumber =
     (case userStats r (nickname u) of
        None \<Rightarrow> r
      | Some stats \<Rightarrow>
          if selectedAnswerIndex stats = -1 \<and> acceptAnswers r
          then r\<lparr>userStats :=
                  (userStats r)(nickname u \<mapsto> stats\<lparr>selectedAnswerIndex := answerNumber\<rparr>)\<rparr>
          else r)"

text \<open>\<^verbatim>\<open>TriviaRoom.addUser\<close>\<close>

definition addUser :: "room \<Rightarrow> user \<Rightarrow> room" where
  "addUser r u =
     (let r1 = RoomBase_addUser r u;
          r2 = r1\<lparr>userStats := (userStats r1)(nickname u \<mapsto> new_UserStatistics)\<rparr>;
          r3 = r2\<lparr>answerListeners := answerListeners r2 @ [uid u]\<rparr>;
          r4 = emit (ToUser (uid u) (EnteredGameRoom (room_id r3))) r3;
          r5 = sendUserStatsToAll r4;
          r6 = (if \<not> isGameOver r5 then sendCurrentQuestionToOne r5 u
                else sendGameOverToOne r5 u)
      in emit (Lifecycle UPDATE_ROOM) r6)"

section \<open>Grading and the countdown (\<^verbatim>\<open>sendAnswerResultsAndResetSelections\<close>, \<^verbatim>\<open>timer\<close>)\<close>

text \<open>
  The body of the \<^verbatim>\<open>forEach\<close> callback of \<^verbatim>\<open>sendAnswerResultsAndResetSelections\<close>,
  as far as it works on the member's statistics: the result that is sent to the
  member and the statistics after the update.
\<close>

definition gradeMember ::
  "RoomConfiguration \<Rightarrow> TriviaQuestion \<Rightarrow> UserStatistics \<Rightarrow> answerResult \<times> UserStatistics" where
  "gradeMember cfg q stats =
     (let (result, stats1) =
            (if selectedAnswerIndex stats = -1 \<and> canSkipQuestions cfg
             then (SKIPPED,
                   stats\<lparr>pointsChange := 0, questionsWrong := questionsWrong stats + 1\<rparr>)
             else
               (let result = (if selectedAnswerIndex stats = correctAnswerIndex q
                              then CORRECT else INCORRECT);
                    s1 = stats\<lparr>pointsChange :=
                           (if result = CORRECT then getPointValue q else - getPointValue q)\<rparr>;
                    s2 = (if result = CORRECT
                          then s1\<lparr>questionsRight := questionsRight s1 + 1\<rparr>
                          else s1\<lparr>questionsWrong := questionsWrong s1 + 1\<rparr>)
                in (result, s2)));
          stats2 = stats1\<lparr>points := points stats1 + pointsChange stats1\<rparr>;
          stats3 = (if points stats2 < 0 then stats2\<lparr>points := 0\<rparr> else stats2)
      in (result, stats3))"

text \<open>
  The callback on the room. A member without a statistics entry makes
  \<^verbatim>\<open>stats.selectedAnswerIndex\<close> throw a \<^verbatim>\<open>TypeError\<close>.
\<close>

definition gradeUser :: "TriviaQuestion \<Rightarrow> room \<Rightarrow> user \<Rightarrow> js_error + room" where
  "gradeUser q r u =
     (case userStats r (nickname u) of
        None \<Rightarrow> Inl (JsTypeError ''Cannot read properties of undefined'')
      | Some stats \<Rightarrow>
          (case gradeMember (config r) q stats of
             (result, stats') \<Rightarrow>
               Inr (emit (ToUser (uid u) (AnswerResult result))
                      (r\<lparr>userStats := (userStats r)(nickname u \<mapsto> stats')\<rparr>))))"

fun forEachUser :: "(room \<Rightarrow> user \<Rightarrow> js_error + room) \<Rightarrow> user list \<Rightarrow> room \<Rightarrow> js_error + room" where
  "forEachUser f [] r = Inr r"
| "forEachUser f (u # us) r =
     (case f r u of Inl e \<Rightarrow> Inl e | Inr r' \<Rightarrow> forEachUser f us r')"

text \<open>\<^verbatim>\<open>for (let u in this.userStats) this.userStats[u].selectedAnswerIndex = -1\<close>\<close>

definition resetSelections :: "room \<Rightarrow> room" where
  "resetSelections r =
     r\<lparr>userStats := (\<lambda>k. map_option (\<lambda>s. s\<lparr>selectedAnswerIndex := -1\<rparr>) (userStats r k))\<rparr>"

definition sendAnswerResultsAndResetSelections :: "room \<Rightarrow> js_error + room" where
  "sendAnswerResultsAndResetSelections r =
     (case currentQuestion r of
        None \<Rightarrow> Inr r
      | Some q \<Rightarrow>
          (case forEachUser (gradeUser q) (users r) r of
             Inl e \<Rightarrow> Inl e
           | Inr r1 \<Rightarrow> Inr (resetSelections (sendUserStatsToAll r1))))"

text \<open>
  \<^verbatim>\<open>timer(room)\<close>, the countdown callback. It leaves behind the callback it
  schedules: the next tick, or the delayed \<^verbatim>\<open>requestNewQuestion\<close>, or none when
  the game is over.
\<close>

definition timer :: "room \<Rightarrow> js_error + room" where
  "timer r =
     (if secondsLeft r = 0
      then
        (let r1 = r\<lparr>questionsAnswered := questionsAnswered r + 1\<rparr>;
             r2 = r1\<lparr>acceptAnswers := False\<rparr>;
             r3 = emit (ToRoom EndQuestion) r2
         in case sendAnswerResultsAndResetSelections r3 of
              Inl e \<Rightarrow> Inl e
            | Inr r4 \<Rightarrow>
                if \<not> isGameOver r4
                then Inr (r4\<lparr>pending := Some DelayedRequest\<rparr>)
                else
                  (let r5 = sendGameOverToAll r4
                   in Inr (if deleteOnLastUser r5 then deleteRoom r5 else r5)))
      else
        (let r1 = r\<lparr>secondsLeft := secondsLeft r - 1\<rparr>;
             r2 = emit (ToRoom (SecondsLeft (secondsLeft r1))) r1
         in Inr (r2\<lparr>pending := Some Timer\<rparr>)))"

section \<open>The question cycle (\<^verbatim>\<open>setNewQuestion\<close>, \<^verbatim>\<open>requestNewQuestion\<close>)\<close>

definition setNewQuestion :: "TriviaQuestion \<Rightarrow> room \<Rightarrow> room" where
  "setNewQuestion q r =
     (let r1 = r\<lparr>currentQuestion := Some q\<rparr>;
          r2 = r1\<lparr>secondsLeft := maxSeconds (config r1)\<rparr>;
          r3 = r2\<lparr>secondsLeft := secondsLeft r2 - 1\<rparr>;
          r4 = emit (ToRoom (SecondsLeft (secondsLeft r3))) r3
      in sendCurrentQuestionToAll r4)"

text \<open>
  \<^verbatim>\<open>requestNewQuestion\<close> hands the two callbacks below to the question source and
  returns; the reply is outstanding from then on.
\<close>

definition requestNewQuestion :: "room \<Rightarrow> room" where
  "requestNewQuestion r = r\<lparr>pending := Some FetchReply\<rparr>"

text \<open>The success callback \<^verbatim>\<open>(q) => { ... }\<close> of \<^verbatim>\<open>requestNewQuestion\<close>.\<close>

definition requestNewQuestion_onComplete :: "TriviaQuestion \<Rightarrow> room \<Rightarrow> room" where
  "requestNewQuestion_onComplete q r =
     (let r1 = r\<lparr>acceptAnswers := True\<rparr>;
          r2 = setNewQuestion q r1
      in r2\<lparr>pending := Some Timer\<rparr>)"

text \<open>The failure callback \<^verbatim>\<open>(e) => { ... }\<close>: a log line and a retry in 5 seconds.\<close>

definition requestNewQuestion_onError :: "js_error \<Rightarrow> room \<Rightarrow> room" where
  "requestNewQuestion_onError e r = r\<lparr>pending := Some DelayedRequest\<rparr>"

text \<open>
  \<^verbatim>\<open>makeNewRoom\<close> with the constructor of \<^verbatim>\<open>TriviaRoom\<close>: the \<open>id\<close> is the string
  that \<^verbatim>\<open>generateId\<close> drew.
\<close>

definition makeNewRoom :: "string \<Rightarrow> string \<Rightarrow> bool \<Rightarrow> RoomConfiguration \<Rightarrow> room" where
  "makeNewRoom ident nm del cfg =
     (let r0 = \<lparr>room_id = ident, room_name = nm, users = [], secondsLeft = maxSeconds cfg,
                 currentQuestion = None, deleteOnLastUser = del, config = cfg,
                 acceptAnswers = True, questionsAnswered = 0, userStats = Map.empty,
                 answerListeners = [], userRoom = (\<lambda>_. NoRoom), listed = False,
                 pending = None, outbox = []\<rparr>;
          r1 = requestNewQuestion r0;
          r2 = r1\<lparr>listed := True\<rparr>
      in emit (Lifecycle NEW_ROOM) r2)"

section \<open>The event loop, for one room\<close>

text \<open>
  What can happen to a room: its outstanding callback runs (a countdown tick, the
  delayed request, the reply to the fetch with a question or with an error), or a
  message of a user arrives (\<^verbatim>\<open>'join room'\<close> with this room's id,
  \<^verbatim>\<open>'leave room'\<close>, \<^verbatim>\<open>'disconnect'\<close>, \<^verbatim>\<open>'answer'\<close>, \<^verbatim>\<open>'message'\<close>).
\<close>

datatype event =
    TimerFires
  | DelayElapsed
  | QuestionArrives TriviaQuestion
  | FetchFails js_error
  | Join user
  | Leave user
  | Disconnect user
  | Answer user int
  | Message user string

text \<open>
  An \<^verbatim>\<open>'answer'\<close> message runs every listener registered on the sender's socket.
\<close>

definition dispatchAnswer :: "room \<Rightarrow> user \<Rightarrow> int \<Rightarrow> room" where
  "dispatchAnswer r u n =
     foldl (\<lambda>r' _. answerListener r' u n) r (filter (\<lambda>i. i = uid u) (answerListeners r))"

text \<open>
  A callback runs only when it is the one outstanding, and is no longer outstanding
  when it runs. \<^verbatim>\<open>'leave room'\<close> adds the user to the lobby, whose
  \<^verbatim>\<open>RoomBase.addUser\<close> calls \<^verbatim>\<open>removeUser\<close> of the room that \<^verbatim>\<open>user.room\<close>
  names and then sets \<^verbatim>\<open>user.room\<close> to the lobby; \<^verbatim>\<open>'disconnect'\<close> calls that
  \<^verbatim>\<open>removeUser\<close> only. A chat message goes to the room that \<^verbatim>\<open>user.room\<close>
  names when it is not empty.
\<close>

definition deliver :: "event \<Rightarrow> room \<Rightarrow> js_error + room" where
  "deliver e r =
     (case e of
        TimerFires \<Rightarrow>
          if pending r = Some Timer then timer (r\<lparr>pending := None\<rparr>) else Inr r
      | DelayElapsed \<Rightarrow>
          if pending r = Some DelayedRequest
          then Inr (requestNewQuestion (r\<lparr>pending := None\<rparr>)) else Inr r
      | QuestionArrives q \<Rightarrow>
          if pending r = Some FetchReply
          then Inr (requestNewQuestion_onComplete q (r\<lparr>pending := None\<rparr>)) else Inr r
      | FetchFails err \<Rightarrow>
          if pending r = Some FetchReply
          then Inr (requestNewQuestion_onError err (r\<lparr>pending := None\<rparr>)) else Inr r
      | Join u \<Rightarrow> Inr (addUser r u)
      | Leave u \<Rightarrow>
          if userRoom r (uid u) = ThisRoom
          then (let r1 = removeUser r u
                in Inr (r1\<lparr>userRoom := (userRoom r1)(uid u := OtherRoom)\<rparr>))
          else Inr r
      | Disconnect u \<Rightarrow>
          if userRoom r (uid u) = ThisRoom then Inr (removeUser r u) else Inr r
      | Answer u n \<Rightarrow> Inr (dispatchAnswer r u n)
      | Message u msg \<Rightarrow>
          if msg \<noteq> [] \<and> userRoom r (uid u) = ThisRoom
          then Inr (sendMessage r u msg) else Inr r)"

fun run :: "event list \<Rightarrow> room \<Rightarrow> js_error + room" where
  "run [] r = Inr r"
| "run (e # es) r = (case deliver e r of Inl err \<Rightarrow> Inl err | Inr r' \<Rightarrow> run es r')"

section \<open>The question source (question-source.js)\<close>

text \<open>One record of \<^verbatim>\<open>response.data.results\<close>.\<close>

record rawQuestion =
  raw_question :: string
  correct_answer :: string
  incorrect_answers :: "string list"
  raw_category :: string
  raw_difficulty :: string

text \<open>
  How \<^verbatim>\<open>axios.get\<close> of a question URL settles: rejected with an error, or
  resolved with \<^verbatim>\<open>response.data.response_code\<close> and \<^verbatim>\<open>response.data.results\<close>.
\<close>

datatype http_reply = RequestFailed js_error | ApiResponse nat "rawQuestion list"

text \<open>
  The swap of the shuffle loop:
  \<^verbatim>\<open>tmp = answers[i]; answers[i] = answers[newIndex]; answers[newIndex] = tmp\<close>.
\<close>

definition swapAnswers :: "nat \<Rightarrow> nat \<Rightarrow> 'a list \<Rightarrow> 'a list" where
  "swapAnswers i newIndex xs = (xs[i := xs ! newIndex])[newIndex := xs ! i]"

text \<open>
  The shuffle loop \<^verbatim>\<open>for (let i = 0; i < answers.length; ++i)\<close>, given the index
  \<open>draw i\<close> that iteration \<open>i\<close> computes as \<open>newIndex\<close>. The swap keeps the length,
  so the loop runs once for every position.
\<close>

definition shuffleWith :: "(nat \<Rightarrow> nat) \<Rightarrow> 'a list \<Rightarrow> 'a list" where
  "shuffleWith draw xs = fold (\<lambda>i ys. swapAnswers i (draw i) ys) [0..<length xs] xs"

text \<open>
  \<^verbatim>\<open>Math.floor(Math.random() * answers.length)\<close>, for the value \<open>x\<close> that
  \<^verbatim>\<open>Math.random()\<close> returned (\<open>0 \<le> x < 1\<close>).
\<close>

definition randomIndex :: "rat \<Rightarrow> nat \<Rightarrow> nat" where
  "randomIndex x n = nat \<lfloor>x * of_nat n\<rfloor>"

text \<open>The shuffle, given the value \<open>rnd i\<close> of the \<open>i\<close>-th call of \<^verbatim>\<open>Math.random()\<close>.\<close>

definition shuffle :: "(nat \<Rightarrow> rat) \<Rightarrow> 'a list \<Rightarrow> 'a list" where
  "shuffle rnd xs = shuffleWith (\<lambda>i. randomIndex (rnd i) (length xs)) xs"

text \<open>
  The \<^verbatim>\<open>then\<close> callback of \<^verbatim>\<open>makeQuestionRequest\<close>, on one record of the
  response: the normalisation into a \<^verbatim>\<open>TriviaQuestion\<close>.
\<close>

definition normalize :: "(nat \<Rightarrow> rat) \<Rightarrow> rawQuestion \<Rightarrow> TriviaQuestion" where
  "normalize rnd response =
     (let answers0 = incorrect_answers response @ [correct_answer response];
          answers1 = shuffle rnd answers0;
          correctIndex = findIndex (\<lambda>a. a = correct_answer response) answers1
      in \<lparr>question = raw_question response, answers = answers1,
          correctAnswerIndex = correctIndex, categoryName = raw_category response,
          difficulty = raw_difficulty response\<rparr>)"

text \<open>
  \<^verbatim>\<open>makeQuestionRequest(url)\<close>, given how the request settles. Response code 4
  throws \<^verbatim>\<open>new Error('4')\<close>; an empty \<^verbatim>\<open>results\<close> makes \<^verbatim>\<open>response.question\<close>
  throw a \<^verbatim>\<open>TypeError\<close>.
\<close>

definition makeQuestionRequest :: "(nat \<Rightarrow> rat) \<Rightarrow> http_reply \<Rightarrow> js_error + TriviaQuestion" where
  "makeQuestionRequest rnd reply =
     (case reply of
        RequestFailed e \<Rightarrow> Inl e
      | ApiResponse code results \<Rightarrow>
          if code = 4 then Inl (JsError ''4'')
          else (case results of
                  [] \<Rightarrow> Inl (JsTypeError ''Cannot read properties of undefined'')
                | response # _ \<Rightarrow> Inr (normalize rnd response)))"

text \<open>
  The requests that the module sends: a question URL with its optional
  \<^verbatim>\<open>difficulty\<close>, \<^verbatim>\<open>category\<close> and \<^verbatim>\<open>token\<close> parameters, the token request and
  the token reset (with the token to reset).
\<close>

datatype request =
    QuestionRequest "string option" "nat option" "string option"
  | TokenRequest
  | TokenReset string

datatype token_reply = TokenFailed js_error | TokenResponse string

text \<open>
  What one call of \<^verbatim>\<open>getTriviaQuestionAsync\<close> meets while it waits. The replies of
  the supplier: to the question request with the cached token, to the token
  request, and to the question request that follows the token. And, for each of
  the three requests, what happens to the module's \<^verbatim>\<open>sessionTokens\<close> while the
  request is in flight: the \<^verbatim>\<open>DELETE_ROOM\<close> listener deletes the entry of a room
  that is destroyed, and the fetches of other rooms store their tokens. The map is
  read again by the callback that runs when the reply arrives.
\<close>

record network =
  cachedTokenReply :: http_reply
  tokenReply :: token_reply
  freshTokenReply :: http_reply
  duringCachedRequest :: "(string \<rightharpoonup> string) \<Rightarrow> (string \<rightharpoonup> string)"
  duringTokenRequest :: "(string \<rightharpoonup> string) \<Rightarrow> (string \<rightharpoonup> string)"
  duringFreshRequest :: "(string \<rightharpoonup> string) \<Rightarrow> (string \<rightharpoonup> string)"

text \<open>Which callback is called in the end: \<^verbatim>\<open>onComplete(q)\<close> or \<^verbatim>\<open>onError(e)\<close>.\<close>

datatype outcome = Completed TriviaQuestion | Failed js_error

text \<open>
  The result of a call: the callback called, the module's \<^verbatim>\<open>sessionTokens\<close> map
  when it is called, and the requests sent, in order.
\<close>

record fetched =
  outcome :: outcome
  sessionTokens :: "string \<rightharpoonup> string"
  requests :: "request list"

definition withToken :: "request \<Rightarrow> string \<Rightarrow> request" where
  "withToken url t =
     (case url of QuestionRequest d c _ \<Rightarrow> QuestionRequest d c (Some t) | _ \<Rightarrow> url)"

text \<open>
  \<^verbatim>\<open>getSessionTokenForRoom\<close>, called with \<^verbatim>\<open>sessionTokens\<close> as it is at the call:
  the request sent (a reset of the room's token when the map has an entry for the
  room, a request for a new token otherwise), the map when the reply has been
  handled, and the token or the error.
\<close>

definition getSessionTokenForRoom ::
  "(string \<rightharpoonup> string) \<Rightarrow> string \<Rightarrow> network
     \<Rightarrow> request \<times> (string \<rightharpoonup> string) \<times> (js_error + string)" where
  "getSessionTokenForRoom tokens rid net =
     (let url = (case tokens rid of Some t \<Rightarrow> TokenReset t | None \<Rightarrow> TokenRequest);
          tokens1 = duringTokenRequest net tokens
      in case tokenReply net of
           TokenFailed e \<Rightarrow> (url, tokens1, Inl e)
         | TokenResponse t \<Rightarrow> (url, tokens1(rid \<mapsto> t), Inr t))"

definition toOutcome :: "js_error + TriviaQuestion \<Rightarrow> outcome" where
  "toOutcome res = (case res of Inl e \<Rightarrow> Failed e | Inr q \<Rightarrow> Completed q)"

definition getTokenThenRequestQuestion ::
  "(string \<rightharpoonup> string) \<Rightarrow> string \<Rightarrow> request \<Rightarrow> (nat \<Rightarrow> rat) \<Rightarrow> network \<Rightarrow> fetched" where
  "getTokenThenRequestQuestion tokens rid url rnd net =
     (case getSessionTokenForRoom tokens rid net of
        (tokenUrl, tokens1, Inl e) \<Rightarrow>
          \<lparr>outcome = Failed e, sessionTokens = tokens1, requests = [tokenUrl]\<rparr>
      | (tokenUrl, tokens1, Inr t) \<Rightarrow>
          (let tokens2 = tokens1(rid \<mapsto> t);
               url1 = withToken url t
           in \<lparr>outcome = toOutcome (makeQuestionRequest rnd (freshTokenReply net)),
               sessionTokens = duringFreshRequest net tokens2,
               requests = [tokenUrl, url1]\<rparr>))"

text \<open>
  \<^verbatim>\<open>getTriviaQuestionAsync\<close>, called with \<^verbatim>\<open>sessionTokens\<close> as it is at the call.
  With a cached token, the \<^verbatim>\<open>catch\<close> callback runs when the reply to the question
  request has arrived, and \<^verbatim>\<open>getTokenThenRequestQuestion\<close> then reads the map as it
  is at that moment. Without one, \<^verbatim>\<open>getTokenThenRequestQuestion\<close> runs at once.
\<close>

definition getTriviaQuestionAsync ::
  "(string \<rightharpoonup> string) \<Rightarrow> string \<Rightarrow> RoomConfiguration \<Rightarrow> (nat \<Rightarrow> rat) \<Rightarrow> network \<Rightarrow> fetched" where
  "getTriviaQuestionAsync tokens rid cfg rnd net =
     (let url = QuestionRequest (cfg_difficulty cfg) (map_option cat_id (category cfg)) None
      in case tokens rid of
           Some tok \<Rightarrow>
             (let newUrl = withToken url tok;
                  tokens1 = duringCachedRequest net tokens
              in case makeQuestionRequest rnd (cachedTokenReply net) of
                   Inr q \<Rightarrow>
                     \<lparr>outcome = Completed q, sessionTokens = tokens1, requests = [newUrl]\<rparr>
                 | Inl e \<Rightarrow>
                     if message e = ''4''
                     then (let f = getTokenThenRequestQuestion tokens1 rid url rnd net
                           in f\<lparr>requests := newUrl # requests f\<rparr>)
                     else \<lparr>outcome = Failed e, sessionTokens = tokens1, requests = [newUrl]\<rparr>)
         | None \<Rightarrow> getTokenThenRequestQuestion tokens rid url rnd net)"

text \<open>
  The question requests among the requests sent, the token resets, and the
  requests for a token of either kind.
\<close>

fun isQuestionRequest :: "request \<Rightarrow> bool" where
  "isQuestionRequest (QuestionRequest _ _ _) = True"
| "isQuestionRequest _ = False"

fun isTokenReset :: "request \<Rightarrow> bool" where
  "isTokenReset (TokenReset _) = True"
| "isTokenReset _ = False"

definition isTokenUrl :: "request \<Rightarrow> bool" where
  "isTokenUrl url = (\<not> isQuestionRequest url)"

section \<open>Notions of the specification, and sample data\<close>








text \<open>
  The draws of one shuffle of \<open>n\<close> answers: every iteration draws one of \<open>n\<close>
  indices, each with the same probability, so the \<open>n ^ n\<close> sequences are equally
  likely. \<open>arrangementCount xs target\<close> is the number of them that turn \<open>xs\<close> into
  \<open>target\<close>.
\<close>

definition drawSequences :: "nat \<Rightarrow> nat list list" where
  "drawSequences n = List.n_lists n [0..<n]"

definition arrangementCount :: "'a list \<Rightarrow> 'a list \<Rightarrow> nat" where
  "arrangementCount xs target =
     length (filter (\<lambda>js. shuffleWith (\<lambda>i. js ! i) xs = target) (drawSequences (length xs)))"

text \<open>
  A grading pass is a countdown tick that runs with \<open>secondsLeft = 0\<close>;
  \<open>gradingPasses es r\<close> counts them while the events \<open>es\<close> reach the room \<open>r\<close>.
\<close>

definition isGradingPass :: "event \<Rightarrow> room \<Rightarrow> bool" where
  "isGradingPass e r = (e = TimerFires \<and> pending r = Some Timer \<and> secondsLeft r = 0)"

fun gradingPasses :: "event list \<Rightarrow> room \<Rightarrow> nat" where
  "gradingPasses [] r = 0"
| "gradingPasses (e # es) r =
     (case deliver e r of
        Inl _ \<Rightarrow> 0
      | Inr r' \<Rightarrow> (if isGradingPass e r then 1 else 0) + gradingPasses es r')"







text \<open>
  The statistics of a new member who selected answer 0, the wrong one, of a medium
  question, as they are sent after the grading and before the selections are reset.
\<close>

definition lostPoints :: UserStatistics where
  "lostPoints = \<lparr>points = 0, pointsChange = -25, questionsRight = 0, questionsWrong = 1,
                 selectedAnswerIndex = 0\<rparr>"

definition alice :: user where
  "alice = \<lparr>uid = 1, nickname = ''alice''\<rparr>"

definition bob :: user where
  "bob = \<lparr>uid = 2, nickname = ''bob''\<rparr>"

definition carol :: user where
  "carol = \<lparr>uid = 3, nickname = ''carol''\<rparr>"

definition sampleRecord :: rawQuestion where
  "sampleRecord =
     \<lparr>raw_question = ''2 + 2 = ?'', correct_answer = ''4'',
      incorrect_answers = [''3'', ''5'', ''22''], raw_category = ''Mathematics'',
      raw_difficulty = ''medium''\<rparr>"

definition sampleQuestion :: TriviaQuestion where
  "sampleQuestion =
     \<lparr>question = ''2 + 2 = ?'', answers = [''3'', ''5'', ''4'', ''22''],
      correctAnswerIndex = 2, categoryName = ''Mathematics'', difficulty = ''medium''\<rparr>"

text \<open>A game of three questions of one second each.\<close>

definition shortGame :: RoomConfiguration where
  "shortGame =
     \<lparr>category = None, cfg_difficulty = None, maxSeconds = 1, canSkipQuestions = True,
      questionCount = 3\<rparr>"

definition twoQuestionGame :: RoomConfiguration where
  "twoQuestionGame = shortGame\<lparr>questionCount := 2\<rparr>"

definition endlessGame :: RoomConfiguration where
  "endlessGame = shortGame\<lparr>questionCount := 0\<rparr>"

text \<open>One question cycle of a short game: the question arrives, the tick grades it.\<close>

definition oneCycle :: "event list" where
  "oneCycle = [QuestionArrives sampleQuestion, TimerFires]"

text \<open>
  A room of a short game with two members, after its first question has arrived.
\<close>

definition openRoom :: room where
  "openRoom =
     requestNewQuestion_onComplete sampleQuestion
       (addUser (addUser (makeNewRoom ''abcde'' ''quiz'' False shortGame) alice) bob)"

text \<open>Event sequences on a short game that \<open>bob\<close> joins first.\<close>

definition twoCycles :: "event list" where
  "twoCycles = Join bob # oneCycle @ DelayElapsed # oneCycle"

definition threeCycles :: "event list" where
  "threeCycles = Join bob # oneCycle @ DelayElapsed # oneCycle @ DelayElapsed # oneCycle"

definition wrongAnswer :: "event list" where
  "wrongAnswer = [Join bob, QuestionArrives sampleQuestion, Answer bob 0, TimerFires]"

definition rightAnswer :: "event list" where
  "rightAnswer = [Join bob, QuestionArrives sampleQuestion, Answer bob 2, TimerFires]"

text \<open>
  A game of two questions: \<open>zed\<close> and \<open>bob\<close> join, \<open>bob\<close> answers the first
  question right and the second one wrong, the game ends, and \<open>zed\<close> sends
  \<^verbatim>\<open>'join room'\<close> for the room once more.
\<close>

definition zed :: user where
  "zed = \<lparr>uid = 4, nickname = ''zed''\<rparr>"


text \<open>
  The question URL that \<^verbatim>\<open>getTriviaQuestionAsync\<close> builds from the room's
  configuration, before a token is attached.
\<close>

definition questionUrl :: "RoomConfiguration \<Rightarrow> request" where
  "questionUrl cfg = QuestionRequest (cfg_difficulty cfg) (map_option cat_id (category cfg)) None"

text \<open>
  Replies of the supplier, with nothing else touching \<^verbatim>\<open>sessionTokens\<close> meanwhile:
  the cached token is exhausted and the reset works, or the reset fails, or the
  fresh token is reported exhausted as well, or the supplier cannot be reached at
  all.
\<close>

definition exhausted :: http_reply where
  "exhausted = ApiResponse 4 []"

definition resetWorks :: network where
  "resetWorks = \<lparr>cachedTokenReply = exhausted, tokenReply = TokenResponse ''t2'',
                  freshTokenReply = ApiResponse 0 [sampleRecord],
                  duringCachedRequest = (\<lambda>tokens. tokens),
                  duringTokenRequest = (\<lambda>tokens. tokens),
                  duringFreshRequest = (\<lambda>tokens. tokens)\<rparr>"

definition resetFails :: network where
  "resetFails = resetWorks\<lparr>tokenReply := TokenFailed (JsError ''Network Error'')\<rparr>"

definition exhaustedTwice :: network where
  "exhaustedTwice = resetWorks\<lparr>freshTokenReply := exhausted\<rparr>"

definition supplierDown :: network where
  "supplierDown = resetWorks\<lparr>cachedTokenReply := RequestFailed (JsError ''Network Error'')\<rparr>"

definition cachedToken :: "string \<rightharpoonup> string" where
  "cachedToken = [''abcde'' \<mapsto> ''t1'']"

text \<open>
  The cached token is exhausted, and the room \<open>abcde\<close> is destroyed while the
  question request is in flight: the \<^verbatim>\<open>DELETE_ROOM\<close> listener deletes its entry.
\<close>

definition roomDeleted :: network where
  "roomDeleted = resetWorks\<lparr>duringCachedRequest := (\<lambda>tokens. tokens(''abcde'' := None))\<rparr>"

section \<open>Invariants\<close>

text \<open>No statistics entry of the room has negative points.\<close>

definition pointsOK :: "room \<Rightarrow> bool" where
  "pointsOK r = (\<forall>k st. userStats r k = Some st \<longrightarrow> 0 \<le> points st)"

text \<open>
  The statistics entries that an emitted event carries (\<^verbatim>\<open>'set user stats'\<close> and
  \<^verbatim>\<open>'game over'\<close>), and: no entry that the room has sent has negative points.
\<close>

fun statsSent :: "effect \<Rightarrow> statsEntry list" where
  "statsSent (ToRoom (SetUserStats es)) = es"
| "statsSent (ToRoom (GameOver es)) = es"
| "statsSent (ToUser _ (SetUserStats es)) = es"
| "statsSent (ToUser _ (GameOver es)) = es"
| "statsSent _ = []"

definition entriesOK :: "statsEntry list \<Rightarrow> bool" where
  "entriesOK es = (\<forall>n st. (n, Some st) \<in> set es \<longrightarrow> 0 \<le> points st)"

definition outboxOK :: "room \<Rightarrow> bool" where
  "outboxOK r = (\<forall>e\<in>set (outbox r). entriesOK (statsSent e))"

text \<open>
  In a room with a question limit, the number of graded questions stays within the
  limit, and once it reaches the limit no callback is outstanding.
\<close>

definition gameInv :: "room \<Rightarrow> bool" where
  "gameInv r =
     (questionsAnswered r \<le> questionCount (config r) \<and>
      (questionsAnswered r = questionCount (config r) \<longrightarrow> pending r = None))"

section \<open>Verified properties\<close>

subsection \<open>The sort is a rearrangement\<close>

lemma runTail_append: "fst (runTail d cmp p xs) @ snd (runTail d cmp p xs) = xs"
  by (induction d cmp p xs rule: runTail.induct) (auto simp: Let_def split: prod.splits)

lemma countAndMakeRun_mset:
  "mset (fst (countAndMakeRun cmp xs)) + mset (snd (countAndMakeRun cmp xs)) = mset xs"
proof (induction cmp xs rule: countAndMakeRun.induct)
  case (3 cmp h l ys)
  have "mset (fst (runTail d cmp l ys)) + mset (snd (runTail d cmp l ys)) = mset ys" for d
    using runTail_append [of d cmp l ys] by (metis mset_append)
  from this [of True] this [of False] show ?case
    by (auto simp: Let_def split: prod.splits)
qed auto



lemma mset_insertPivot: "mset (insertPivot cmp a pivot) = add_mset pivot (mset a)"
proof -
  have "mset (take k a) + mset (drop k a) = mset a" for k
    by (metis append_take_drop_id mset_append)
  then show ?thesis by (simp add: insertPivot_def Let_def)
qed

lemma mset_binaryInsertionSort:
  "mset (binaryInsertionSort cmp currentRun extra) = mset currentRun + mset extra"
  unfolding binaryInsertionSort_def
  by (induction extra arbitrary: currentRun) (simp_all add: mset_insertPivot)

lemma timSortRuns_Nil: "timSortRuns cmp m [] = []"
  by (subst timSortRuns.simps) simp

lemma mset_timSortRuns: "mset (concat (timSortRuns cmp m xs)) = mset xs"
proof (induction cmp m xs rule: timSortRuns.induct)
  case (1 cmp m xs)
  show ?case
  proof (cases "xs = []")
    case True
    then show ?thesis by (simp add: timSortRuns_Nil)
  next
    case False
    let ?run = "fst (countAndMakeRun cmp xs)" and ?rest = "snd (countAndMakeRun cmp xs)"
    have c: "mset ?run + mset ?rest = mset xs" by (rule countAndMakeRun_mset)
    show ?thesis
    proof (cases "length ?run < m")
      case True
      let ?k = "min m (length xs) - length ?run"
      have td: "mset (take ?k ?rest) + mset (drop ?k ?rest) = mset ?rest"
        by (metis append_take_drop_id mset_append)
      have ih: "mset (concat (timSortRuns cmp m (drop ?k ?rest))) = mset (drop ?k ?rest)"
        using "1.IH"(1) [OF False refl refl True refl refl] .
      have "timSortRuns cmp m xs =
          binaryInsertionSort cmp ?run (take ?k ?rest) # timSortRuns cmp m (drop ?k ?rest)"
        using False True by (subst timSortRuns.simps) (simp add: Let_def)
      then show ?thesis using ih td c by (simp add: mset_binaryInsertionSort ac_simps)
    next
      case nt: False
      have ih: "mset (concat (timSortRuns cmp m ?rest)) = mset ?rest"
        using "1.IH"(2) [OF False refl refl nt] .
      have "timSortRuns cmp m xs = ?run # timSortRuns cmp m ?rest"
        using False nt by (subst timSortRuns.simps) (simp add: Let_def)
      then show ?thesis using ih c by simp
    qed
  qed
qed

lemma mset_mergeRuns: "mset (mergeRuns cmp as bs) = mset as + mset bs"
  by (induction cmp as bs rule: mergeRuns.induct) simp_all

lemma mset_foldl_mergeRuns:
  "mset (foldl (mergeRuns cmp) acc runs) = mset acc + mset (concat runs)"
  by (induction runs arbitrary: acc) (simp_all add: mset_mergeRuns)

lemma mset_js_sort: "mset (js_sort cmp xs) = mset xs"
  by (simp add: js_sort_def mset_foldl_mergeRuns mset_timSortRuns)

text \<open>The sort of at most two elements.\<close>

lemma js_sort_Nil: "js_sort cmp [] = []"
  by (simp add: js_sort_def)

lemma js_sort_single: "js_sort cmp [x] = [x]"
  by (simp add: js_sort_def)

lemma js_sort_two: "js_sort cmp [x, y] = (if cmp y x < 0 then [y, x] else [x, y])"
  by (simp add: js_sort_def computeMinRunLength_def minRunFrom.simps timSortRuns.simps
      timSortRuns_Nil Let_def)

subsection \<open>The sort puts the elements in order\<close>


















subsection \<open>The final ranking with \<^verbatim>\<open>compareStats\<close>\<close>










subsection \<open>Evaluation of the sample scenarios\<close>

lemmas room_defs =
  makeNewRoom_def requestNewQuestion_def requestNewQuestion_onComplete_def
  requestNewQuestion_onError_def
  setNewQuestion_def addUser_def RoomBase_addUser_def removeUser_def RoomBase_removeUser_def
  isUserInRoom_def isGameOver_def emit_def sendUserStatsToAll_def getUserStats_def
  sendCurrentQuestionToOne_def sendCurrentQuestionToAll_def sendGameOverToOne_def
  sendGameOverToAll_def deleteRoom_def clearTimeout_def splice1_def
  deliver_def dispatchAnswer_def answerListener_def timer_def
  sendAnswerResultsAndResetSelections_def gradeUser_def gradeMember_def resetSelections_def
  getPointValue_def gameOverRanking_def js_sort_Nil js_sort_single js_sort_two
  compareEntries_def compareStats_def
  js_div_def js_lt_def isGradingPass_def
  alice_def bob_def carol_def zed_def shortGame_def twoQuestionGame_def
  endlessGame_def sendMessage_def sampleQuestion_def
  new_UserStatistics_def oneCycle_def twoCycles_def threeCycles_def wrongAnswer_def
  rightAnswer_def openRoom_def Let_def

lemmas fetch_defs =
  getTriviaQuestionAsync_def getTokenThenRequestQuestion_def
  getSessionTokenForRoom_def withToken_def makeQuestionRequest_def questionUrl_def
  toOutcome_def cachedToken_def resetFails_def resetWorks_def exhaustedTwice_def
  supplierDown_def roomDeleted_def exhausted_def isTokenUrl_def
  shortGame_def Let_def

lemma openRoom_facts:
  "users openRoom = [alice, bob]"
  "userStats openRoom ''bob'' = Some new_UserStatistics"
  "userStats openRoom ''alice'' = Some new_UserStatistics"
  "acceptAnswers openRoom"
  "answerListeners openRoom = [1, 2]"
  "currentQuestion openRoom = Some sampleQuestion"
  "config openRoom = shortGame"
  by (simp_all add: room_defs)

subsection \<open>Lists: \<^verbatim>\<open>findIndex\<close>, \<^verbatim>\<open>splice\<close>, the shuffle\<close>

lemma findIndex_none: "(findIndex P xs = -1) = (\<forall>x\<in>set xs. \<not> P x)"
  and findIndex_ge: "-1 \<le> findIndex P xs"
  by (induction xs) (auto simp: Let_def)

lemma splice1_last: "splice1 (-1) xs = butlast xs"
  by (cases xs rule: rev_cases) (auto simp: splice1_def Let_def)

lemma swapAnswers_mset:
  "i < length xs \<Longrightarrow> j < length xs \<Longrightarrow> mset (swapAnswers i j xs) = mset xs"
  by (simp add: swapAnswers_def mset_swap)

lemma swapAnswers_length: "length (swapAnswers i j xs) = length xs"
  by (simp add: swapAnswers_def)

lemma fold_swap_mset:
  "\<forall>i\<in>set is. i < length xs \<and> draw i < length xs \<Longrightarrow>
     mset (fold (\<lambda>i ys. swapAnswers i (draw i) ys) is xs) = mset xs \<and>
     length (fold (\<lambda>i ys. swapAnswers i (draw i) ys) is xs) = length xs"
  by (induction "is" arbitrary: xs) (simp_all add: swapAnswers_mset swapAnswers_length)

lemma shuffleWith_mset:
  "\<forall>i<length xs. draw i < length xs \<Longrightarrow> mset (shuffleWith draw xs) = mset xs"
  unfolding shuffleWith_def by (simp add: fold_swap_mset)

lemma randomIndex_less: "0 \<le> x \<Longrightarrow> x < 1 \<Longrightarrow> 0 < n \<Longrightarrow> randomIndex x n < n"
proof -
  assume a: "0 \<le> x" "x < 1" "0 < n"
  then have "x * of_nat n < of_nat n" by simp
  then have "\<lfloor>x * of_nat n\<rfloor> < int n" by (simp add: floor_less_iff)
  moreover have "0 \<le> \<lfloor>x * of_nat n\<rfloor>" using a by simp
  ultimately show ?thesis unfolding randomIndex_def by linarith
qed

lemma shuffle_mset:
  "\<forall>i. 0 \<le> rnd i \<and> rnd i < 1 \<Longrightarrow> mset (shuffle rnd xs) = mset xs"
  unfolding shuffle_def
  by (rule shuffleWith_mset) (auto intro!: randomIndex_less)

lemma findIndex_first:
  "\<exists>x\<in>set xs. P x \<Longrightarrow>
     0 \<le> findIndex P xs \<and> nat (findIndex P xs) < length xs \<and> P (xs ! nat (findIndex P xs)) \<and>
     (\<forall>j < nat (findIndex P xs). \<not> P (xs ! j))"
proof (induction xs)
  case Nil
  then show ?case by simp
next
  case (Cons a xs)
  show ?case
  proof (cases "P a")
    case True
    then show ?thesis by simp
  next
    case False
    with Cons.prems have ex: "\<exists>x\<in>set xs. P x" by simp
    from Cons.IH [OF ex] have ih: "0 \<le> findIndex P xs" "nat (findIndex P xs) < length xs"
      "P (xs ! nat (findIndex P xs))" "\<forall>j < nat (findIndex P xs). \<not> P (xs ! j)" by simp_all
    have ne: "findIndex P xs \<noteq> -1" using ih(1) by simp
    have n: "nat (findIndex P xs + 1) = Suc (nat (findIndex P xs))" using ih(1) by simp
    show ?thesis using False ih ne
      by (auto simp: Let_def n nth_Cons less_Suc_eq_0_disj split: nat.splits)
  qed
qed

subsection \<open>The grading loop\<close>

lemma gradeMember_points_nonneg: "0 \<le> points (snd (gradeMember cfg q st))"
  by (auto simp: gradeMember_def Let_def split: prod.splits)

lemma gradeUser_Inr:
  "gradeUser q r u = Inr r' \<Longrightarrow>
     \<exists>st. userStats r (nickname u) = Some st \<and>
       r' = r\<lparr>userStats := (userStats r)(nickname u \<mapsto> snd (gradeMember (config r) q st)),
              outbox := outbox r @ [ToUser (uid u) (AnswerResult (fst (gradeMember (config r) q st)))]\<rparr>"
  by (auto simp: gradeUser_def emit_def split: option.splits prod.splits)

lemma forEachUser_frame:
  "forEachUser (gradeUser q) us r = Inr r' \<Longrightarrow>
     config r' = config r \<and> questionsAnswered r' = questionsAnswered r \<and>
     pending r' = pending r \<and> users r' = users r \<and>
     deleteOnLastUser r' = deleteOnLastUser r \<and> listed r' = listed r \<and>
     secondsLeft r' = secondsLeft r \<and> currentQuestion r' = currentQuestion r \<and>
     acceptAnswers r' = acceptAnswers r \<and> answerListeners r' = answerListeners r"
proof (induction us arbitrary: r)
  case Nil
  then show ?case by simp
next
  case (Cons u us)
  from Cons.prems obtain r1 where g: "gradeUser q r u = Inr r1"
    and f: "forEachUser (gradeUser q) us r1 = Inr r'"
    by (auto split: sum.splits)
  from gradeUser_Inr [OF g] Cons.IH [OF f] show ?case by auto
qed

lemma forEachUser_pointsOK:
  "forEachUser (gradeUser q) us r = Inr r' \<Longrightarrow> pointsOK r \<Longrightarrow> pointsOK r'"
proof (induction us arbitrary: r)
  case Nil
  then show ?case by simp
next
  case (Cons u us)
  from Cons.prems obtain r1 where g: "gradeUser q r u = Inr r1"
    and f: "forEachUser (gradeUser q) us r1 = Inr r'"
    by (auto split: sum.splits)
  from gradeUser_Inr [OF g] Cons.prems(2) have "pointsOK r1"
    by (auto simp: pointsOK_def gradeMember_points_nonneg split: if_splits)
  with Cons.IH [OF f] show ?case .
qed

lemma gradeUser_keeps_nonneg:
  "gradeUser q r v = Inr r' \<Longrightarrow> userStats r k = Some st \<Longrightarrow> 0 \<le> points st \<Longrightarrow>
     \<exists>st'. userStats r' k = Some st' \<and> 0 \<le> points st'"
  by (drule gradeUser_Inr) (auto simp: gradeMember_points_nonneg)

lemma forEachUser_keeps_nonneg:
  "forEachUser (gradeUser q) us r = Inr r' \<Longrightarrow> userStats r k = Some st \<Longrightarrow> 0 \<le> points st \<Longrightarrow>
     \<exists>st'. userStats r' k = Some st' \<and> 0 \<le> points st'"
proof (induction us arbitrary: r st)
  case Nil
  then show ?case by simp
next
  case (Cons u us)
  from Cons.prems obtain r1 where g: "gradeUser q r u = Inr r1"
    and f: "forEachUser (gradeUser q) us r1 = Inr r'"
    by (auto split: sum.splits)
  from gradeUser_keeps_nonneg [OF g Cons.prems(2,3)] obtain st1
    where "userStats r1 k = Some st1" "0 \<le> points st1" by blast
  with Cons.IH [OF f] show ?case by blast
qed

lemma forEachUser_graded:
  "forEachUser (gradeUser q) us r = Inr r' \<Longrightarrow> u \<in> set us \<Longrightarrow>
     \<exists>st. userStats r' (nickname u) = Some st \<and> 0 \<le> points st"
proof (induction us arbitrary: r)
  case Nil
  then show ?case by simp
next
  case (Cons v us)
  from Cons.prems obtain r1 where g: "gradeUser q r v = Inr r1"
    and f: "forEachUser (gradeUser q) us r1 = Inr r'"
    by (auto split: sum.splits)
  show ?case
  proof (cases "u = v")
    case True
    from gradeUser_Inr [OF g] True obtain st1
      where "userStats r1 (nickname u) = Some st1" "0 \<le> points st1"
      by (auto simp: gradeMember_points_nonneg)
    with forEachUser_keeps_nonneg [OF f] show ?thesis by blast
  next
    case False
    with Cons.prems have "u \<in> set us" by simp
    with Cons.IH [OF f] show ?thesis .
  qed
qed

lemma sendAnswerResults_frame:
  "sendAnswerResultsAndResetSelections r = Inr r' \<Longrightarrow>
     config r' = config r \<and> questionsAnswered r' = questionsAnswered r \<and>
     pending r' = pending r \<and> users r' = users r \<and>
     deleteOnLastUser r' = deleteOnLastUser r \<and> listed r' = listed r \<and>
     secondsLeft r' = secondsLeft r \<and> currentQuestion r' = currentQuestion r \<and>
     acceptAnswers r' = acceptAnswers r \<and> answerListeners r' = answerListeners r"
  by (auto simp: sendAnswerResultsAndResetSelections_def resetSelections_def
      sendUserStatsToAll_def emit_def split: option.splits sum.splits
      dest!: forEachUser_frame)

lemma sendAnswerResults_pointsOK:
  "sendAnswerResultsAndResetSelections r = Inr r' \<Longrightarrow> pointsOK r \<Longrightarrow> pointsOK r'"
  by (auto simp: sendAnswerResultsAndResetSelections_def resetSelections_def
      sendUserStatsToAll_def emit_def pointsOK_def split: option.splits sum.splits
      dest!: forEachUser_pointsOK)

lemma sendAnswerResults_graded:
  assumes "sendAnswerResultsAndResetSelections r = Inr r'" "currentQuestion r = Some q"
    "u \<in> set (users r)"
  shows "\<exists>st. userStats r' (nickname u) = Some st \<and> 0 \<le> points st"
proof -
  from assms(1,2) obtain r1 where f: "forEachUser (gradeUser q) (users r) r = Inr r1"
    and r': "r' = resetSelections (sendUserStatsToAll r1)"
    by (auto simp: sendAnswerResultsAndResetSelections_def split: sum.splits)
  from forEachUser_graded [OF f assms(3)] show ?thesis
    by (auto simp: r' resetSelections_def sendUserStatsToAll_def emit_def)
qed

lemma forEachUser_outbox_mono:
  "forEachUser (gradeUser q) us r = Inr r' \<Longrightarrow> set (outbox r) \<subseteq> set (outbox r')"
proof (induction us arbitrary: r)
  case Nil
  then show ?case by simp
next
  case (Cons u us)
  from Cons.prems obtain r1 where g: "gradeUser q r u = Inr r1"
    and f: "forEachUser (gradeUser q) us r1 = Inr r'"
    by (auto split: sum.splits)
  from gradeUser_Inr [OF g] Cons.IH [OF f] show ?case by auto
qed

lemma forEachUser_untouched:
  "forEachUser (gradeUser q) us r = Inr r' \<Longrightarrow> k \<notin> nickname ` set us \<Longrightarrow>
     userStats r' k = userStats r k"
proof (induction us arbitrary: r)
  case Nil
  then show ?case by simp
next
  case (Cons u us)
  from Cons.prems obtain r1 where g: "gradeUser q r u = Inr r1"
    and f: "forEachUser (gradeUser q) us r1 = Inr r'"
    by (auto split: sum.splits)
  from gradeUser_Inr [OF g] Cons.prems(2) have "userStats r1 k = userStats r k" by auto
  with Cons.IH [OF f] Cons.prems(2) show ?case by simp
qed

lemma forEachUser_member:
  "forEachUser (gradeUser q) us r = Inr r' \<Longrightarrow> distinct (map nickname us) \<Longrightarrow>
   u \<in> set us \<Longrightarrow> userStats r (nickname u) = Some st \<Longrightarrow>
     userStats r' (nickname u) = Some (snd (gradeMember (config r) q st)) \<and>
     ToUser (uid u) (AnswerResult (fst (gradeMember (config r) q st))) \<in> set (outbox r')"
proof (induction us arbitrary: r)
  case Nil
  then show ?case by simp
next
  case (Cons v us)
  from Cons.prems(1) obtain r1 where g: "gradeUser q r v = Inr r1"
    and f: "forEachUser (gradeUser q) us r1 = Inr r'"
    by (auto split: sum.splits)
  from gradeUser_Inr [OF g] obtain sv where sv: "userStats r (nickname v) = Some sv"
    and r1: "r1 = r\<lparr>userStats := (userStats r)(nickname v \<mapsto> snd (gradeMember (config r) q sv)),
              outbox := outbox r @ [ToUser (uid v) (AnswerResult (fst (gradeMember (config r) q sv)))]\<rparr>"
    by blast
  show ?case
  proof (cases "u = v")
    case True
    from Cons.prems(2) have "nickname v \<notin> nickname ` set us" by simp
    from forEachUser_untouched [OF f this] forEachUser_outbox_mono [OF f] True sv Cons.prems(4)
    show ?thesis by (auto simp: r1)
  next
    case False
    with Cons.prems have u: "u \<in> set us" and d: "distinct (map nickname us)"
      and nv: "nickname v \<notin> nickname ` set us" by auto
    have "nickname u \<in> nickname ` set us" using u by (rule imageI)
    with nv have n: "nickname u \<noteq> nickname v" by metis
    from n Cons.prems(4) have "userStats r1 (nickname u) = Some st" by (simp add: r1)
    from Cons.IH [OF f d u this] show ?thesis by (simp add: r1)
  qed
qed

lemma sendAnswerResults_member:
  assumes "sendAnswerResultsAndResetSelections r = Inr r'" "currentQuestion r = Some q"
    "u \<in> set (users r)" "distinct (map nickname (users r))" "userStats r (nickname u) = Some st"
  shows "userStats r' (nickname u) =
           Some ((snd (gradeMember (config r) q st))\<lparr>selectedAnswerIndex := -1\<rparr>) \<and>
         ToUser (uid u) (AnswerResult (fst (gradeMember (config r) q st))) \<in> set (outbox r')"
proof -
  from assms(1,2) obtain r1 where f: "forEachUser (gradeUser q) (users r) r = Inr r1"
    and r': "r' = resetSelections (sendUserStatsToAll r1)"
    by (auto simp: sendAnswerResultsAndResetSelections_def split: sum.splits)
  from forEachUser_member [OF f assms(4,3,5)] show ?thesis
    by (auto simp: r' resetSelections_def sendUserStatsToAll_def emit_def)
qed

subsection \<open>What every method leaves unchanged\<close>

lemma removeUser_frame:
  "config (removeUser r u) = config r"
  "questionsAnswered (removeUser r u) = questionsAnswered r"
  "pending (removeUser r u) = pending r \<or> pending (removeUser r u) = None"
  "userStats (removeUser r u) = (userStats r)(nickname u := None)"
  by (auto simp: removeUser_def RoomBase_removeUser_def Let_def emit_def sendUserStatsToAll_def
      deleteRoom_def clearTimeout_def)

lemma RoomBase_addUser_frame:
  "config (RoomBase_addUser r u) = config r"
  "questionsAnswered (RoomBase_addUser r u) = questionsAnswered r"
  "pending (RoomBase_addUser r u) = pending r \<or> pending (RoomBase_addUser r u) = None"
  "userStats (RoomBase_addUser r u) = userStats r \<or>
     userStats (RoomBase_addUser r u) = (userStats r)(nickname u := None)"
  using removeUser_frame [of r u]
  by (auto simp: RoomBase_addUser_def Let_def emit_def split: roomref.splits)

lemma addUser_frame:
  "config (addUser r u) = config r"
  "questionsAnswered (addUser r u) = questionsAnswered r"
  "pending (addUser r u) = pending r \<or> pending (addUser r u) = None"
  "userStats (addUser r u) = (userStats r)(nickname u \<mapsto> new_UserStatistics)"
  using RoomBase_addUser_frame [of r u]
  by (auto simp: addUser_def Let_def emit_def sendUserStatsToAll_def sendCurrentQuestionToOne_def
      sendGameOverToOne_def split: option.splits)

lemma answerListener_frame:
  "config (answerListener r u n) = config r"
  "questionsAnswered (answerListener r u n) = questionsAnswered r"
  "pending (answerListener r u n) = pending r"
  "pointsOK r \<Longrightarrow> pointsOK (answerListener r u n)"
  by (auto simp: answerListener_def pointsOK_def split: option.splits if_splits)

lemma foldl_answerListener_frame:
  "config (foldl (\<lambda>r' _. answerListener r' u n) r xs) = config r \<and>
   questionsAnswered (foldl (\<lambda>r' _. answerListener r' u n) r xs) = questionsAnswered r \<and>
   pending (foldl (\<lambda>r' _. answerListener r' u n) r xs) = pending r \<and>
   (pointsOK r \<longrightarrow> pointsOK (foldl (\<lambda>r' _. answerListener r' u n) r xs))"
  by (induction xs arbitrary: r) (simp_all add: answerListener_frame)

lemma dispatchAnswer_frame:
  "config (dispatchAnswer r u n) = config r"
  "questionsAnswered (dispatchAnswer r u n) = questionsAnswered r"
  "pending (dispatchAnswer r u n) = pending r"
  "pointsOK r \<Longrightarrow> pointsOK (dispatchAnswer r u n)"
  unfolding dispatchAnswer_def using foldl_answerListener_frame by blast+

lemma onComplete_frame:
  "config (requestNewQuestion_onComplete q r) = config r"
  "questionsAnswered (requestNewQuestion_onComplete q r) = questionsAnswered r"
  "pending (requestNewQuestion_onComplete q r) = Some Timer"
  "userStats (requestNewQuestion_onComplete q r) = userStats r"
  by (simp_all add: requestNewQuestion_onComplete_def setNewQuestion_def Let_def emit_def
      sendCurrentQuestionToAll_def)

lemma timer_grading:
  assumes "timer r = Inr r'" "secondsLeft r = 0"
  shows "config r' = config r" "questionsAnswered r' = questionsAnswered r + 1"
    "isGameOver r' \<Longrightarrow> pending r' = clearTimeout (pending r) \<or> pending r' = pending r"
    "\<not> isGameOver r' \<Longrightarrow> pending r' = Some DelayedRequest"
    "pointsOK r \<Longrightarrow> pointsOK r'"
proof -
  let ?r3 = "emit (ToRoom EndQuestion)
     (r\<lparr>questionsAnswered := questionsAnswered r + 1, acceptAnswers := False\<rparr>)"
  from assms obtain r4 where s: "sendAnswerResultsAndResetSelections ?r3 = Inr r4"
    and r': "r' = (if \<not> isGameOver r4 then r4\<lparr>pending := Some DelayedRequest\<rparr>
                   else (let r5 = sendGameOverToAll r4
                         in if deleteOnLastUser r5 then deleteRoom r5 else r5))"
    by (auto simp: timer_def Let_def split: sum.splits if_splits)
  note fr = sendAnswerResults_frame [OF s]
  have g: "isGameOver r' = isGameOver r4"
    by (auto simp: r' isGameOver_def Let_def sendGameOverToAll_def emit_def deleteRoom_def)
  show "config r' = config r"
    using fr by (auto simp: r' emit_def Let_def sendGameOverToAll_def deleteRoom_def)
  show "questionsAnswered r' = questionsAnswered r + 1"
    using fr by (auto simp: r' emit_def Let_def sendGameOverToAll_def deleteRoom_def)
  show "isGameOver r' \<Longrightarrow> pending r' = clearTimeout (pending r) \<or> pending r' = pending r"
    using fr g by (auto simp: r' emit_def Let_def sendGameOverToAll_def deleteRoom_def)
  show "\<not> isGameOver r' \<Longrightarrow> pending r' = Some DelayedRequest"
    using g by (auto simp: r')
  show "pointsOK r \<Longrightarrow> pointsOK r'"
  proof -
    assume "pointsOK r"
    then have "pointsOK ?r3" by (simp add: pointsOK_def emit_def)
    from sendAnswerResults_pointsOK [OF s this] show ?thesis
      by (auto simp: r' pointsOK_def emit_def Let_def sendGameOverToAll_def deleteRoom_def)
  qed
qed

lemma timer_tick:
  assumes "secondsLeft r \<noteq> 0"
  shows "timer r = Inr (r\<lparr>secondsLeft := secondsLeft r - 1,
           outbox := outbox r @ [ToRoom (SecondsLeft (secondsLeft r - 1))],
           pending := Some Timer\<rparr>)"
  using assms by (simp add: timer_def Let_def emit_def)

lemma timer_frame:
  assumes "timer r = Inr r'"
  shows "config r' = config r"
    "questionsAnswered r' = questionsAnswered r + (if secondsLeft r = 0 then 1 else 0)"
    "pointsOK r \<Longrightarrow> pointsOK r'"
    "pending r = None \<Longrightarrow>
       pending r' = (if secondsLeft r \<noteq> 0 then Some Timer
                     else if isGameOver r' then None else Some DelayedRequest)"
proof -
  show "config r' = config r"
    using assms timer_grading(1) [of r r'] timer_tick [of r] by (cases "secondsLeft r = 0") auto
  show "questionsAnswered r' = questionsAnswered r + (if secondsLeft r = 0 then 1 else 0)"
    using assms timer_grading(2) [of r r'] timer_tick [of r] by (cases "secondsLeft r = 0") auto
  show "pointsOK r \<Longrightarrow> pointsOK r'"
    using assms timer_grading(5) [of r r'] timer_tick [of r]
    by (cases "secondsLeft r = 0") (auto simp: pointsOK_def)
  show "pending r = None \<Longrightarrow>
       pending r' = (if secondsLeft r \<noteq> 0 then Some Timer
                     else if isGameOver r' then None else Some DelayedRequest)"
    using assms timer_grading(3,4) [of r r'] timer_tick [of r]
    by (cases "secondsLeft r = 0") (auto simp: clearTimeout_def)
qed

lemma deliver_config: "deliver e r = Inr r' \<Longrightarrow> config r' = config r"
  by (cases e)
    (auto simp: deliver_def addUser_frame removeUser_frame dispatchAnswer_frame onComplete_frame
      requestNewQuestion_def requestNewQuestion_onError_def sendMessage_def emit_def Let_def
      split: if_splits dest: timer_frame(1))

lemma deliver_answered:
  "deliver e r = Inr r' \<Longrightarrow>
     questionsAnswered r' = questionsAnswered r + (if isGradingPass e r then 1 else 0)"
  by (cases e)
    (auto simp: deliver_def isGradingPass_def addUser_frame removeUser_frame dispatchAnswer_frame
      onComplete_frame requestNewQuestion_def requestNewQuestion_onError_def sendMessage_def
      emit_def Let_def split: if_splits dest: timer_frame(2))

lemma deliver_pointsOK: "deliver e r = Inr r' \<Longrightarrow> pointsOK r \<Longrightarrow> pointsOK r'"
proof (cases e)
  case TimerFires
  assume "deliver e r = Inr r'" "pointsOK r"
  with TimerFires show ?thesis
    using timer_frame(3) [of "r\<lparr>pending := None\<rparr>" r']
    by (auto simp: deliver_def pointsOK_def split: if_splits)
next
  case (Join u)
  assume "deliver e r = Inr r'" "pointsOK r"
  with Join show ?thesis
    by (auto simp: deliver_def pointsOK_def addUser_frame new_UserStatistics_def split: if_splits)
next
  case (Leave u)
  assume "deliver e r = Inr r'" "pointsOK r"
  with Leave show ?thesis
    by (auto simp: deliver_def pointsOK_def removeUser_frame Let_def split: if_splits)
next
  case (Disconnect u)
  assume "deliver e r = Inr r'" "pointsOK r"
  with Disconnect show ?thesis
    by (auto simp: deliver_def pointsOK_def removeUser_frame split: if_splits)
qed (auto simp: deliver_def pointsOK_def dispatchAnswer_frame onComplete_frame
      requestNewQuestion_def requestNewQuestion_onError_def sendMessage_def emit_def
      split: if_splits dest: dispatchAnswer_frame(4) [unfolded pointsOK_def])

lemma deliver_gameInv:
  assumes "deliver e r = Inr r'" "gameInv r" "questionCount (config r) \<noteq> 0"
  shows "gameInv r'"
proof (cases e)
  case TimerFires
  show ?thesis
  proof (cases "pending r = Some Timer")
    case True
    with TimerFires assms(1) have t: "timer (r\<lparr>pending := None\<rparr>) = Inr r'"
      by (simp add: deliver_def)
    from True assms(2) have lt: "questionsAnswered r < questionCount (config r)"
      by (auto simp: gameInv_def le_less)
    from timer_frame(1,2,4) [OF t] lt show ?thesis
      by (auto simp: gameInv_def isGameOver_def split: if_splits)
  next
    case False
    with TimerFires assms show ?thesis by (simp add: deliver_def)
  qed
next
  case DelayElapsed
  with assms show ?thesis
    by (auto simp: deliver_def gameInv_def requestNewQuestion_def split: if_splits)
next
  case (QuestionArrives q)
  with assms show ?thesis
    by (auto simp: deliver_def gameInv_def onComplete_frame split: if_splits)
next
  case (FetchFails err)
  with assms show ?thesis
    by (auto simp: deliver_def gameInv_def requestNewQuestion_onError_def split: if_splits)
next
  case (Join u)
  with assms addUser_frame(3) [of r u] show ?thesis
    by (auto simp: deliver_def gameInv_def addUser_frame(1,2))
next
  case (Leave u)
  with assms removeUser_frame(3) [of r u] show ?thesis
    by (auto simp: deliver_def gameInv_def removeUser_frame(1,2) Let_def split: if_splits)
next
  case (Disconnect u)
  with assms removeUser_frame(3) [of r u] show ?thesis
    by (auto simp: deliver_def gameInv_def removeUser_frame(1,2) split: if_splits)
next
  case (Answer u n)
  with assms show ?thesis
    by (auto simp: deliver_def gameInv_def dispatchAnswer_frame)
next
  case (Message u msg)
  with assms show ?thesis
    by (auto simp: deliver_def gameInv_def sendMessage_def emit_def split: if_splits)
qed

lemma run_config: "run es r = Inr r' \<Longrightarrow> config r' = config r"
  by (induction es arbitrary: r) (auto split: sum.splits dest: deliver_config)

lemma run_answered:
  "run es r = Inr r' \<Longrightarrow> questionsAnswered r' = questionsAnswered r + gradingPasses es r"
  by (induction es arbitrary: r) (auto split: sum.splits dest!: deliver_answered)

lemma run_pointsOK: "run es r = Inr r' \<Longrightarrow> pointsOK r \<Longrightarrow> pointsOK r'"
  by (induction es arbitrary: r) (auto split: sum.splits dest: deliver_pointsOK)

lemma run_gameInv:
  "run es r = Inr r' \<Longrightarrow> gameInv r \<Longrightarrow> questionCount (config r) \<noteq> 0 \<Longrightarrow> gameInv r'"
proof (induction es arbitrary: r)
  case Nil
  then show ?case by simp
next
  case (Cons e es)
  from Cons.prems(1) obtain r1 where d: "deliver e r = Inr r1" and f: "run es r1 = Inr r'"
    by (auto split: sum.splits)
  from deliver_gameInv [OF d Cons.prems(2,3)] deliver_config [OF d] Cons.prems(3)
  show ?case using Cons.IH [OF f] by simp
qed

lemma makeNewRoom_facts:
  "config (makeNewRoom i n d cfg) = cfg"
  "questionsAnswered (makeNewRoom i n d cfg) = 0"
  "pending (makeNewRoom i n d cfg) = Some FetchReply"
  "userStats (makeNewRoom i n d cfg) = Map.empty"
  by (simp_all add: makeNewRoom_def requestNewQuestion_def emit_def Let_def)

subsection \<open>What the room sends\<close>

lemma outboxOK_emit: "outboxOK (emit e r) = (outboxOK r \<and> entriesOK (statsSent e))"
  by (auto simp: outboxOK_def emit_def)

lemma entriesOK_getUserStats: "pointsOK r \<Longrightarrow> entriesOK (getUserStats r)"
  by (auto simp: pointsOK_def entriesOK_def getUserStats_def)

lemma entriesOK_Nil: "entriesOK []"
  by (simp add: entriesOK_def)

lemmas entriesOK_stats = entriesOK_getUserStats [unfolded pointsOK_def]

lemma entriesOK_gameOverRanking: "entriesOK (gameOverRanking es) = entriesOK es"
proof -
  have "set (gameOverRanking es) = set es"
    unfolding gameOverRanking_def by (rule mset_eq_setD) (rule mset_js_sort)
  then show ?thesis by (simp add: entriesOK_def)
qed

lemma outboxOK_cong:
  "outbox r' = outbox r \<Longrightarrow> outboxOK r' = outboxOK r"
  by (simp add: outboxOK_def)

lemma pointsOK_cong:
  "userStats r' = userStats r \<Longrightarrow> pointsOK r' = pointsOK r"
  by (simp add: pointsOK_def)

lemma removeUser_obs:
  assumes "pointsOK r" "outboxOK r"
  shows "pointsOK (removeUser r u)" "outboxOK (removeUser r u)"
proof -
  show "pointsOK (removeUser r u)"
    using assms(1) by (auto simp: pointsOK_def removeUser_frame)
  show "outboxOK (removeUser r u)"
    using assms
    by (auto simp: removeUser_def RoomBase_removeUser_def Let_def sendUserStatsToAll_def
        deleteRoom_def outboxOK_def emit_def entriesOK_Nil pointsOK_def
        intro!: entriesOK_stats split: if_splits)
qed

lemma RoomBase_addUser_obs:
  assumes "pointsOK r" "outboxOK r"
  shows "pointsOK (RoomBase_addUser r u)" "outboxOK (RoomBase_addUser r u)"
proof -
  show "pointsOK (RoomBase_addUser r u)"
    using assms(1) RoomBase_addUser_frame(4) [of r u]
    by (auto simp: pointsOK_def split: if_splits)
  show "outboxOK (RoomBase_addUser r u)"
    using assms removeUser_obs(2) [OF assms, of u]
    by (auto simp: RoomBase_addUser_def Let_def outboxOK_def emit_def entriesOK_Nil
        split: roomref.splits)
qed

lemma addUser_obs:
  assumes "pointsOK r" "outboxOK r"
  shows "pointsOK (addUser r u)" "outboxOK (addUser r u)"
proof -
  show "pointsOK (addUser r u)"
    using assms(1) by (auto simp: pointsOK_def addUser_frame new_UserStatistics_def)
  show "outboxOK (addUser r u)"
    using RoomBase_addUser_obs [OF assms, of u]
    by (auto simp: addUser_def Let_def sendUserStatsToAll_def sendCurrentQuestionToOne_def
        sendGameOverToOne_def outboxOK_def emit_def entriesOK_gameOverRanking entriesOK_Nil
        pointsOK_def new_UserStatistics_def
        intro!: entriesOK_stats split: option.splits if_splits)
qed

lemma forEachUser_outboxOK:
  "forEachUser (gradeUser q) us r = Inr r' \<Longrightarrow> outboxOK r \<Longrightarrow> outboxOK r'"
proof (induction us arbitrary: r)
  case Nil
  then show ?case by simp
next
  case (Cons u us)
  from Cons.prems obtain r1 where g: "gradeUser q r u = Inr r1"
    and f: "forEachUser (gradeUser q) us r1 = Inr r'"
    by (auto split: sum.splits)
  from gradeUser_Inr [OF g] Cons.prems(2) have "outboxOK r1"
    by (auto simp: outboxOK_def entriesOK_def)
  with Cons.IH [OF f] show ?case .
qed

lemma sendAnswerResults_outboxOK:
  assumes "sendAnswerResultsAndResetSelections r = Inr r'" "pointsOK r" "outboxOK r"
  shows "outboxOK r'"
proof (cases "currentQuestion r")
  case None
  with assms show ?thesis by (simp add: sendAnswerResultsAndResetSelections_def)
next
  case (Some q)
  with assms(1) obtain r1 where f: "forEachUser (gradeUser q) (users r) r = Inr r1"
    and r': "r' = resetSelections (sendUserStatsToAll r1)"
    by (auto simp: sendAnswerResultsAndResetSelections_def split: sum.splits)
  from forEachUser_pointsOK [OF f assms(2)] have "entriesOK (getUserStats r1)"
    by (rule entriesOK_getUserStats)
  with forEachUser_outboxOK [OF f assms(3)] show ?thesis
    by (auto simp: r' resetSelections_def sendUserStatsToAll_def outboxOK_def emit_def)
qed

lemma timer_outboxOK:
  assumes "timer r = Inr r'" "pointsOK r" "outboxOK r"
  shows "outboxOK r'"
proof (cases "secondsLeft r = 0")
  case False
  with assms timer_tick [of r] show ?thesis by (auto simp: outboxOK_def entriesOK_Nil)
next
  case True
  let ?r3 = "emit (ToRoom EndQuestion)
     (r\<lparr>questionsAnswered := questionsAnswered r + 1, acceptAnswers := False\<rparr>)"
  from assms(1) True obtain r4 where s: "sendAnswerResultsAndResetSelections ?r3 = Inr r4"
    and r': "r' = (if \<not> isGameOver r4 then r4\<lparr>pending := Some DelayedRequest\<rparr>
                   else (let r5 = sendGameOverToAll r4
                         in if deleteOnLastUser r5 then deleteRoom r5 else r5))"
    by (auto simp: timer_def Let_def split: sum.splits if_splits)
  have p3: "pointsOK ?r3" using assms(2) by (simp add: pointsOK_def emit_def)
  have o3: "outboxOK ?r3" using assms(3) by (simp add: outboxOK_def emit_def entriesOK_def)
  from sendAnswerResults_outboxOK [OF s p3 o3] have o4: "outboxOK r4" .
  from sendAnswerResults_pointsOK [OF s p3] have "entriesOK (getUserStats r4)"
    by (rule entriesOK_getUserStats)
  with o4 show ?thesis
    by (auto simp: r' Let_def sendGameOverToAll_def deleteRoom_def outboxOK_def emit_def
        entriesOK_gameOverRanking entriesOK_Nil)
qed

lemma dispatchAnswer_outbox: "outbox (dispatchAnswer r u n) = outbox r"
proof -
  have a: "outbox (answerListener r u n) = outbox r" for r
    by (simp add: answerListener_def split: option.splits)
  have "outbox (foldl (\<lambda>r' _. answerListener r' u n) r xs) = outbox r" for xs :: "nat list"
    by (induction xs arbitrary: r) (simp_all add: a)
  then show ?thesis by (simp add: dispatchAnswer_def)
qed

lemma deliver_outboxOK:
  assumes "deliver e r = Inr r'" "pointsOK r" "outboxOK r"
  shows "outboxOK r'"
proof (cases e)
  case TimerFires
  have "pointsOK (r\<lparr>pending := None\<rparr>)" "outboxOK (r\<lparr>pending := None\<rparr>)"
    using assms(2,3) by (simp_all add: pointsOK_def outboxOK_def)
  with TimerFires assms timer_outboxOK [of "r\<lparr>pending := None\<rparr>" r'] show ?thesis
    by (auto simp: deliver_def split: if_splits)
next
  case (Join u)
  with assms addUser_obs(2) [of r u] show ?thesis by (auto simp: deliver_def)
next
  case (Leave u)
  with assms removeUser_obs(2) [of r u] show ?thesis
    by (auto simp: deliver_def Let_def outboxOK_def split: if_splits)
next
  case (Disconnect u)
  with assms removeUser_obs(2) [of r u] show ?thesis
    by (auto simp: deliver_def split: if_splits)
next
  case (Answer u n)
  with assms show ?thesis by (auto simp: deliver_def outboxOK_def dispatchAnswer_outbox)
next
  case (QuestionArrives q)
  with assms show ?thesis
    by (auto simp: deliver_def outboxOK_def requestNewQuestion_onComplete_def setNewQuestion_def
        Let_def emit_def sendCurrentQuestionToAll_def entriesOK_def split: if_splits)
qed (use assms in \<open>auto simp: deliver_def outboxOK_def requestNewQuestion_def
      requestNewQuestion_onError_def sendMessage_def emit_def entriesOK_def split: if_splits\<close>)

lemma run_obs:
  "run es r = Inr r' \<Longrightarrow> pointsOK r \<Longrightarrow> outboxOK r \<Longrightarrow> pointsOK r' \<and> outboxOK r'"
proof (induction es arbitrary: r)
  case Nil
  then show ?case by simp
next
  case (Cons e es)
  from Cons.prems(1) obtain r1 where d: "deliver e r = Inr r1" and f: "run es r1 = Inr r'"
    by (auto split: sum.splits)
  from deliver_pointsOK [OF d Cons.prems(2)] deliver_outboxOK [OF d Cons.prems(2,3)]
  show ?case using Cons.IH [OF f] by simp
qed

lemma makeNewRoom_outboxOK: "outboxOK (makeNewRoom i n d cfg)"
  by (simp add: makeNewRoom_def requestNewQuestion_def emit_def Let_def outboxOK_def entriesOK_def)

subsection \<open>Answer listeners\<close>

lemma answerListener_locked: "\<not> acceptAnswers r \<Longrightarrow> answerListener r u n = r"
  by (simp add: answerListener_def split: option.splits)

lemma foldl_answerListener_locked:
  "\<not> acceptAnswers r \<Longrightarrow> foldl (\<lambda>r' _. answerListener r' u n) r xs = r"
  by (induction xs) (simp_all add: answerListener_locked)

lemma answerListener_idem:
  "answerListener (answerListener r u n) u n = answerListener r u n"
  by (auto simp: answerListener_def split: option.splits)

lemma foldl_answerListener_idem:
  "foldl (\<lambda>r' _. answerListener r' u n) (answerListener r u n) xs = answerListener r u n"
  by (induction xs) (simp_all add: answerListener_idem)

lemma dispatchAnswer_listener:
  "uid u \<in> set (answerListeners r) \<Longrightarrow> dispatchAnswer r u n = answerListener r u n"
proof -
  assume "uid u \<in> set (answerListeners r)"
  then have "filter (\<lambda>i. i = uid u) (answerListeners r) \<noteq> []"
    by (auto simp: filter_empty_conv)
  then obtain x xs where "filter (\<lambda>i. i = uid u) (answerListeners r) = x # xs"
    by (cases "filter (\<lambda>i. i = uid u) (answerListeners r)") auto
  then show ?thesis by (simp add: dispatchAnswer_def foldl_answerListener_idem)
qed

section \<open>The claims\<close>

subsection \<open>C1: joining a room twice\<close>

text \<open>
  C1 says that \<^verbatim>\<open>addUser\<close> for a user who is in the room already changes neither
  the members nor the user's statistics, selection and answer listeners.
  \<^verbatim>\<open>RoomBase.addUser\<close> returns at once for a member, but \<^verbatim>\<open>TriviaRoom.addUser\<close>
  goes on after the call of the base method. At this input the claim fails: \<open>bob\<close>
  joins a short game, answers the first question right and is graded (25 points,
  one right answer); then \<^verbatim>\<open>addUser\<close> runs for him again. The member list stays
  \<open>[bob]\<close>, his statistics are a fresh \<^verbatim>\<open>UserStatistics\<close> and his socket has two
  answer listeners.
\<close>

theorem rejoin_resets_statistics:
  "(case run rightAnswer (makeNewRoom ''abcde'' ''quiz'' False shortGame) of
      Inl _ \<Rightarrow> False
    | Inr r \<Rightarrow>
        isUserInRoom r bob \<and>
        users r = [bob] \<and> users (addUser r bob) = [bob] \<and>
        userStats r ''bob'' = Some \<lparr>points = 25, pointsChange = 25, questionsRight = 1,
          questionsWrong = 0, selectedAnswerIndex = -1\<rparr> \<and>
        userStats (addUser r bob) ''bob'' = Some \<lparr>points = 0, pointsChange = 0, questionsRight = 0,
          questionsWrong = 0, selectedAnswerIndex = -1\<rparr> \<and>
        answerListeners r = [2] \<and> answerListeners (addUser r bob) = [2, 2])"
  by (simp add: room_defs)

subsection \<open>C2: the final ranking\<close>




subsection \<open>C3: installing a new question\<close>

text \<open>
  C3, as amended: when the success callback of a fetch has run, \<open>secondsLeft\<close> is
  \<open>config.maxSeconds - 1\<close> (the value sent as \<^verbatim>\<open>'seconds left'\<close>),
  \<open>acceptAnswers\<close> is true, the question is the current one, the question is sent
  to the room with \<open>questionNumber = questionsAnswered + 1\<close> and
  \<open>questionCount = config.questionCount\<close>, and a countdown tick is outstanding.
\<close>

theorem onComplete_installs_question:
  "secondsLeft (requestNewQuestion_onComplete q r) = maxSeconds (config r) - 1 \<and>
   acceptAnswers (requestNewQuestion_onComplete q r) \<and>
   currentQuestion (requestNewQuestion_onComplete q r) = Some q \<and>
   pending (requestNewQuestion_onComplete q r) = Some Timer \<and>
   outbox (requestNewQuestion_onComplete q r) =
     outbox r @ [ToRoom (SecondsLeft (maxSeconds (config r) - 1)),
                 ToRoom (SetQuestion q (questionsAnswered r + 1) (questionCount (config r)))]"
  by (simp add: requestNewQuestion_onComplete_def setNewQuestion_def Let_def emit_def
      sendCurrentQuestionToAll_def)

text \<open>
  C3 as stated fails: in a room with the default configuration (30 seconds),
  \<open>secondsLeft\<close> is 29 once the question is installed.
\<close>

theorem secondsLeft_after_install:
  "maxSeconds (config (makeNewRoom ''abcde'' ''The Any Room'' False new_RoomConfiguration)) = 30 \<and>
   secondsLeft (requestNewQuestion_onComplete sampleQuestion
     (makeNewRoom ''abcde'' ''The Any Room'' False new_RoomConfiguration)) = 29"
  by (simp add: requestNewQuestion_onComplete_def setNewQuestion_def Let_def emit_def
      sendCurrentQuestionToAll_def makeNewRoom_def requestNewQuestion_def
      new_RoomConfiguration_def)

subsection \<open>C4: the exhausted token\<close>

text \<open>
  C4, as amended: for a fetch with a cached token, when the question request fails
  with the message \<open>4\<close> (what response code 4 is turned into), one token request
  is sent. It is built from \<^verbatim>\<open>sessionTokens\<close> as it is when the failure arrives:
  a reset of the token that the room has then, which is the cached one when nothing
  has touched the room's entry meanwhile, or a request for a new token when the
  entry has been deleted while the question request was in flight. When the token
  request succeeds, the new token is stored for the room and one more question
  request is sent, with the new token; its result is final, also when it is code 4
  again. When the token request fails, its error is reported and no further
  question request is sent. A failure with another message is reported as it is,
  with no token request, and the call does not change the token map. In every case
  at most one token request (so at most one reset) and at most two question
  requests are sent.
\<close>

theorem token_exhausted_retry:
  assumes "tokens rid = Some tok"
  shows
    "(makeQuestionRequest rnd (cachedTokenReply net) = Inl e \<and> message e = ''4'' \<and>
      tokenReply net = TokenResponse t \<longrightarrow>
        requests (getTriviaQuestionAsync tokens rid cfg rnd net) =
          [withToken (questionUrl cfg) tok,
           (case duringCachedRequest net tokens rid of
              Some tok' \<Rightarrow> TokenReset tok' | None \<Rightarrow> TokenRequest),
           withToken (questionUrl cfg) t] \<and>
        sessionTokens (getTriviaQuestionAsync tokens rid cfg rnd net) =
          duringFreshRequest net
            ((duringTokenRequest net (duringCachedRequest net tokens))(rid \<mapsto> t)) \<and>
        outcome (getTriviaQuestionAsync tokens rid cfg rnd net) =
          toOutcome (makeQuestionRequest rnd (freshTokenReply net))) \<and>
     (makeQuestionRequest rnd (cachedTokenReply net) = Inl e \<and> message e = ''4'' \<and>
      tokenReply net = TokenFailed e' \<longrightarrow>
        requests (getTriviaQuestionAsync tokens rid cfg rnd net) =
          [withToken (questionUrl cfg) tok,
           (case duringCachedRequest net tokens rid of
              Some tok' \<Rightarrow> TokenReset tok' | None \<Rightarrow> TokenRequest)] \<and>
        sessionTokens (getTriviaQuestionAsync tokens rid cfg rnd net) =
          duringTokenRequest net (duringCachedRequest net tokens) \<and>
        outcome (getTriviaQuestionAsync tokens rid cfg rnd net) = Failed e') \<and>
     (makeQuestionRequest rnd (cachedTokenReply net) = Inl e \<and> message e \<noteq> ''4'' \<longrightarrow>
        requests (getTriviaQuestionAsync tokens rid cfg rnd net) =
          [withToken (questionUrl cfg) tok] \<and>
        sessionTokens (getTriviaQuestionAsync tokens rid cfg rnd net) =
          duringCachedRequest net tokens \<and>
        outcome (getTriviaQuestionAsync tokens rid cfg rnd net) = Failed e) \<and>
     (cachedTokenReply net = ApiResponse 4 results \<longrightarrow>
        makeQuestionRequest rnd (cachedTokenReply net) = Inl (JsError ''4'')) \<and>
     length (filter isTokenUrl (requests (getTriviaQuestionAsync tokens rid cfg rnd net))) \<le> 1 \<and>
     length (filter isTokenReset (requests (getTriviaQuestionAsync tokens rid cfg rnd net))) \<le> 1 \<and>
     length (filter isQuestionRequest (requests (getTriviaQuestionAsync tokens rid cfg rnd net))) \<le> 2"
  using assms
  by (auto simp: getTriviaQuestionAsync_def getTokenThenRequestQuestion_def
      getSessionTokenForRoom_def questionUrl_def withToken_def
      makeQuestionRequest_def isTokenUrl_def Let_def
      split: sum.splits token_reply.splits option.splits)

text \<open>
  The fresh token is exhausted as well; the reset fails; the supplier cannot be
  reached; and the room is destroyed while the first question request is in
  flight, so that a new token is requested and stored for it.
\<close>

theorem token_exhausted_retry_witness:
  "requests (getTriviaQuestionAsync cachedToken ''abcde'' shortGame (\<lambda>i. 1 / 2) exhaustedTwice) =
     [QuestionRequest None None (Some ''t1''), TokenReset ''t1'',
      QuestionRequest None None (Some ''t2'')] \<and>
   outcome (getTriviaQuestionAsync cachedToken ''abcde'' shortGame (\<lambda>i. 1 / 2) exhaustedTwice) =
     Failed (JsError ''4'') \<and>
   sessionTokens (getTriviaQuestionAsync cachedToken ''abcde'' shortGame (\<lambda>i. 1 / 2) exhaustedTwice)
     ''abcde'' = Some ''t2'' \<and>
   requests (getTriviaQuestionAsync cachedToken ''abcde'' shortGame (\<lambda>i. 1 / 2) resetFails) =
     [QuestionRequest None None (Some ''t1''), TokenReset ''t1''] \<and>
   requests (getTriviaQuestionAsync cachedToken ''abcde'' shortGame (\<lambda>i. 1 / 2) supplierDown) =
     [QuestionRequest None None (Some ''t1'')] \<and>
   outcome (getTriviaQuestionAsync cachedToken ''abcde'' shortGame (\<lambda>i. 1 / 2) supplierDown) =
     Failed (JsError ''Network Error'') \<and>
   requests (getTriviaQuestionAsync cachedToken ''abcde'' shortGame (\<lambda>i. 1 / 2) roomDeleted) =
     [QuestionRequest None None (Some ''t1''), TokenRequest,
      QuestionRequest None None (Some ''t2'')] \<and>
   sessionTokens (getTriviaQuestionAsync cachedToken ''abcde'' shortGame (\<lambda>i. 1 / 2) roomDeleted)
     ''abcde'' = Some ''t2''"
proof -
  have tok: "cachedToken ''abcde'' = Some ''t1''" by (simp add: cachedToken_def)
  have a: "makeQuestionRequest (\<lambda>i. 1 / 2) (cachedTokenReply exhaustedTwice) = Inl (JsError ''4'')"
    "tokenReply exhaustedTwice = TokenResponse ''t2''"
    "makeQuestionRequest (\<lambda>i. 1 / 2) (freshTokenReply exhaustedTwice) = Inl (JsError ''4'')"
    "duringCachedRequest exhaustedTwice cachedToken ''abcde'' = Some ''t1''"
    "duringFreshRequest exhaustedTwice = (\<lambda>tokens. tokens)"
    by (simp_all add: fetch_defs)
  have b: "makeQuestionRequest (\<lambda>i. 1 / 2) (cachedTokenReply resetFails) = Inl (JsError ''4'')"
    "tokenReply resetFails = TokenFailed (JsError ''Network Error'')"
    "duringCachedRequest resetFails cachedToken ''abcde'' = Some ''t1''"
    by (simp_all add: fetch_defs)
  have c: "makeQuestionRequest (\<lambda>i. 1 / 2) (cachedTokenReply supplierDown)
      = Inl (JsError ''Network Error'')"
    by (simp add: fetch_defs)
  have d: "makeQuestionRequest (\<lambda>i. 1 / 2) (cachedTokenReply roomDeleted) = Inl (JsError ''4'')"
    "tokenReply roomDeleted = TokenResponse ''t2''"
    "duringCachedRequest roomDeleted cachedToken ''abcde'' = None"
    "duringFreshRequest roomDeleted = (\<lambda>tokens. tokens)"
    by (simp_all add: fetch_defs)
  have u: "withToken (questionUrl shortGame) ''t1'' = QuestionRequest None None (Some ''t1'')"
    "withToken (questionUrl shortGame) ''t2'' = QuestionRequest None None (Some ''t2'')"
    by (simp_all add: fetch_defs)
  from token_exhausted_retry [where tokens = cachedToken and rid = "''abcde''" and tok = "''t1''"
      and net = exhaustedTwice and rnd = "\<lambda>i. 1 / 2" and e = "JsError ''4''" and t = "''t2''"
      and e' = "JsError ''4''" and results = "[]" and cfg = shortGame, OF tok, THEN conjunct1] a
  have 1: "requests (getTriviaQuestionAsync cachedToken ''abcde'' shortGame (\<lambda>i. 1 / 2) exhaustedTwice) =
     [QuestionRequest None None (Some ''t1''), TokenReset ''t1'',
      QuestionRequest None None (Some ''t2'')] \<and>
   outcome (getTriviaQuestionAsync cachedToken ''abcde'' shortGame (\<lambda>i. 1 / 2) exhaustedTwice) =
     Failed (JsError ''4'') \<and>
   sessionTokens (getTriviaQuestionAsync cachedToken ''abcde'' shortGame (\<lambda>i. 1 / 2) exhaustedTwice)
     ''abcde'' = Some ''t2''"
    by (simp add: u toOutcome_def)
  from token_exhausted_retry [where tokens = cachedToken and rid = "''abcde''" and tok = "''t1''"
      and net = resetFails and rnd = "\<lambda>i. 1 / 2" and e = "JsError ''4''" and t = "''t2''"
      and e' = "JsError ''Network Error''" and results = "[]" and cfg = shortGame, OF tok,
      THEN conjunct2, THEN conjunct1] b
  have 2: "requests (getTriviaQuestionAsync cachedToken ''abcde'' shortGame (\<lambda>i. 1 / 2) resetFails) =
     [QuestionRequest None None (Some ''t1''), TokenReset ''t1'']"
    by (simp add: u)
  from token_exhausted_retry [where tokens = cachedToken and rid = "''abcde''" and tok = "''t1''"
      and net = supplierDown and rnd = "\<lambda>i. 1 / 2" and e = "JsError ''Network Error''"
      and t = "''t2''" and e' = "JsError ''4''" and results = "[]" and cfg = shortGame, OF tok,
      THEN conjunct2, THEN conjunct2, THEN conjunct1] c
  have 3: "requests (getTriviaQuestionAsync cachedToken ''abcde'' shortGame (\<lambda>i. 1 / 2) supplierDown) =
     [QuestionRequest None None (Some ''t1'')] \<and>
   outcome (getTriviaQuestionAsync cachedToken ''abcde'' shortGame (\<lambda>i. 1 / 2) supplierDown) =
     Failed (JsError ''Network Error'')"
    by (simp add: u)
  from token_exhausted_retry [where tokens = cachedToken and rid = "''abcde''" and tok = "''t1''"
      and net = roomDeleted and rnd = "\<lambda>i. 1 / 2" and e = "JsError ''4''" and t = "''t2''"
      and e' = "JsError ''4''" and results = "[]" and cfg = shortGame, OF tok, THEN conjunct1] d
  have 4: "requests (getTriviaQuestionAsync cachedToken ''abcde'' shortGame (\<lambda>i. 1 / 2) roomDeleted) =
     [QuestionRequest None None (Some ''t1''), TokenRequest,
      QuestionRequest None None (Some ''t2'')] \<and>
   sessionTokens (getTriviaQuestionAsync cachedToken ''abcde'' shortGame (\<lambda>i. 1 / 2) roomDeleted)
     ''abcde'' = Some ''t2''"
    by (simp add: u)
  from 1 2 3 4 show ?thesis by simp
qed

text \<open>
  C4 as stated fails: the token is exhausted and the reset request fails. One
  question request was sent, none is retried.
\<close>

theorem token_reset_failure_no_retry:
  "cachedToken ''abcde'' = Some ''t1'' \<and>
   cachedTokenReply resetFails = ApiResponse 4 [] \<and>
   requests (getTriviaQuestionAsync cachedToken ''abcde'' shortGame (\<lambda>i. 1 / 2) resetFails) =
     [QuestionRequest None None (Some ''t1''), TokenReset ''t1''] \<and>
   length (filter isQuestionRequest
     (requests (getTriviaQuestionAsync cachedToken ''abcde'' shortGame (\<lambda>i. 1 / 2) resetFails))) = 1 \<and>
   outcome (getTriviaQuestionAsync cachedToken ''abcde'' shortGame (\<lambda>i. 1 / 2) resetFails) =
     Failed (JsError ''Network Error'')"
  by (simp add: fetch_defs)

subsection \<open>C5: the normalised question\<close>

text \<open>
  C5, as amended: whatever \<^verbatim>\<open>Math.random()\<close> returns (values in \<open>[0, 1)\<close>), the
  answers of the normalised question are, as a multiset, the incorrect answers and
  the correct answer, and \<open>correctAnswerIndex\<close> is the first index at which the
  answer list holds the text of the correct answer.
\<close>

theorem normalize_answers:
  assumes "\<forall>i. 0 \<le> rnd i \<and> rnd i < 1"
  shows "mset (answers (normalize rnd resp)) =
           mset (incorrect_answers resp) + {#correct_answer resp#} \<and>
         0 \<le> correctAnswerIndex (normalize rnd resp) \<and>
         nat (correctAnswerIndex (normalize rnd resp)) < length (answers (normalize rnd resp)) \<and>
         answers (normalize rnd resp) ! nat (correctAnswerIndex (normalize rnd resp))
           = correct_answer resp \<and>
         (\<forall>j < nat (correctAnswerIndex (normalize rnd resp)).
            answers (normalize rnd resp) ! j \<noteq> correct_answer resp)"
proof -
  let ?xs = "shuffle rnd (incorrect_answers resp @ [correct_answer resp])"
  have m: "mset ?xs = mset (incorrect_answers resp) + {#correct_answer resp#}"
    using shuffle_mset [OF assms, of "incorrect_answers resp @ [correct_answer resp]"] by simp
  then have "correct_answer resp \<in># mset ?xs" by simp
  then have "\<exists>x\<in>set ?xs. x = correct_answer resp" by simp
  from findIndex_first [OF this] m show ?thesis
    by (simp add: normalize_def Let_def)
qed

theorem normalize_answers_witness:
  "answers (normalize (\<lambda>i. 1 / 2) sampleRecord) = [''22'', ''3'', ''4'', ''5''] \<and>
   mset [''22'', ''3'', ''4'', ''5''] = mset [''3'', ''5'', ''22''] + {#''4''#} \<and>
   correctAnswerIndex (normalize (\<lambda>i. 1 / 2) sampleRecord) = 2"
proof -
  have e: "answers (normalize (\<lambda>i. 1 / 2) sampleRecord) = [''22'', ''3'', ''4'', ''5'']"
    by (simp add: normalize_def sampleRecord_def shuffle_def shuffleWith_def randomIndex_def
        swapAnswers_def Let_def upt_rec)
  have i: "correctAnswerIndex (normalize (\<lambda>i. 1 / 2) sampleRecord) = 2"
    by (simp add: normalize_def sampleRecord_def shuffle_def shuffleWith_def randomIndex_def
        swapAnswers_def Let_def upt_rec)
  have h: "\<forall>i::nat. (0::rat) \<le> 1 / 2 \<and> (1 / 2 :: rat) < 1" by simp
  from normalize_answers [of "\<lambda>i. 1 / 2" sampleRecord, OF h] e i show ?thesis
    by (simp add: sampleRecord_def)
qed

text \<open>
  C5 as stated fails: the permutation is not uniform. Of the 256 equally likely
  draw sequences for four answers, 15 exchange the first two and the last two
  answers, and 8 move the last answer to the front.
\<close>

theorem shuffle_not_uniform:
  "arrangementCount [''3'', ''5'', ''22'', ''4''] [''5'', ''3'', ''4'', ''22''] = 15 \<and>
   arrangementCount [''3'', ''5'', ''22'', ''4''] [''4'', ''3'', ''5'', ''22''] = 8 \<and>
   length (drawSequences 4) = 256"
  by code_simp

subsection \<open>C6: grading a member\<close>

text \<open>
  C6: the grading of a member. With no selection and skips allowed the result is
  \<open>SKIPPED\<close>, the change of points is 0 and one more question counts as wrong.
  Otherwise a selection equal to \<open>correctAnswerIndex\<close> is \<open>CORRECT\<close>, adds the
  point value and counts as right; any other is \<open>INCORRECT\<close>, subtracts the point
  value and counts as wrong. The points are floored at 0. The point value is 10,
  25, 50 for easy, medium, hard, and 0 for any other difficulty. In a grading pass
  that completes, every member of a room without duplicate nicknames gets these
  statistics, with the selection reset, and is sent the result.
\<close>

theorem grading_rules:
  "(selectedAnswerIndex st = -1 \<and> canSkipQuestions cfg \<longrightarrow>
      gradeMember cfg q st =
        (SKIPPED, st\<lparr>pointsChange := 0, questionsWrong := questionsWrong st + 1,
                      points := max 0 (points st)\<rparr>)) \<and>
   (\<not> (selectedAnswerIndex st = -1 \<and> canSkipQuestions cfg) \<and>
    selectedAnswerIndex st = correctAnswerIndex q \<longrightarrow>
      gradeMember cfg q st =
        (CORRECT, st\<lparr>pointsChange := getPointValue q, questionsRight := questionsRight st + 1,
                      points := max 0 (points st + getPointValue q)\<rparr>)) \<and>
   (\<not> (selectedAnswerIndex st = -1 \<and> canSkipQuestions cfg) \<and>
    selectedAnswerIndex st \<noteq> correctAnswerIndex q \<longrightarrow>
      gradeMember cfg q st =
        (INCORRECT, st\<lparr>pointsChange := - getPointValue q, questionsWrong := questionsWrong st + 1,
                      points := max 0 (points st - getPointValue q)\<rparr>)) \<and>
   (difficulty q = ''easy'' \<longrightarrow> getPointValue q = 10) \<and>
   (difficulty q = ''medium'' \<longrightarrow> getPointValue q = 25) \<and>
   (difficulty q = ''hard'' \<longrightarrow> getPointValue q = 50) \<and>
   (difficulty q \<notin> {''easy'', ''medium'', ''hard''} \<longrightarrow> getPointValue q = 0) \<and>
   (sendAnswerResultsAndResetSelections r = Inr r' \<and> currentQuestion r = Some q \<and>
    u \<in> set (users r) \<and> distinct (map nickname (users r)) \<and>
    userStats r (nickname u) = Some st \<longrightarrow>
      userStats r' (nickname u) =
        Some ((snd (gradeMember (config r) q st))\<lparr>selectedAnswerIndex := -1\<rparr>) \<and>
      ToUser (uid u) (AnswerResult (fst (gradeMember (config r) q st))) \<in> set (outbox r'))"
proof -
  have m: "sendAnswerResultsAndResetSelections r = Inr r' \<and> currentQuestion r = Some q \<and>
    u \<in> set (users r) \<and> distinct (map nickname (users r)) \<and>
    userStats r (nickname u) = Some st \<longrightarrow>
      userStats r' (nickname u) =
        Some ((snd (gradeMember (config r) q st))\<lparr>selectedAnswerIndex := -1\<rparr>) \<and>
      ToUser (uid u) (AnswerResult (fst (gradeMember (config r) q st))) \<in> set (outbox r')"
    using sendAnswerResults_member [of r r' q u st] by blast
  have g: "(selectedAnswerIndex st = -1 \<and> canSkipQuestions cfg \<longrightarrow>
      gradeMember cfg q st =
        (SKIPPED, st\<lparr>pointsChange := 0, questionsWrong := questionsWrong st + 1,
                      points := max 0 (points st)\<rparr>)) \<and>
   (\<not> (selectedAnswerIndex st = -1 \<and> canSkipQuestions cfg) \<and>
    selectedAnswerIndex st = correctAnswerIndex q \<longrightarrow>
      gradeMember cfg q st =
        (CORRECT, st\<lparr>pointsChange := getPointValue q, questionsRight := questionsRight st + 1,
                      points := max 0 (points st + getPointValue q)\<rparr>)) \<and>
   (\<not> (selectedAnswerIndex st = -1 \<and> canSkipQuestions cfg) \<and>
    selectedAnswerIndex st \<noteq> correctAnswerIndex q \<longrightarrow>
      gradeMember cfg q st =
        (INCORRECT, st\<lparr>pointsChange := - getPointValue q, questionsWrong := questionsWrong st + 1,
                      points := max 0 (points st - getPointValue q)\<rparr>))"
    by (auto simp: gradeMember_def Let_def max_def)
  have p: "(difficulty q = ''easy'' \<longrightarrow> getPointValue q = 10) \<and>
   (difficulty q = ''medium'' \<longrightarrow> getPointValue q = 25) \<and>
   (difficulty q = ''hard'' \<longrightarrow> getPointValue q = 50) \<and>
   (difficulty q \<notin> {''easy'', ''medium'', ''hard''} \<longrightarrow> getPointValue q = 0)"
    by (auto simp: getPointValue_def)
  from g p m show ?thesis by blast
qed

text \<open>
  In the short game (skips allowed, a medium question whose correct answer has index
  2): no selection, the right selection, a wrong selection; and a pass on the room
  of \<open>alice\<close> and \<open>bob\<close> after \<open>bob\<close> selected the right answer.
\<close>

theorem grading_rules_witness:
  "gradeMember shortGame sampleQuestion new_UserStatistics =
     (SKIPPED, new_UserStatistics\<lparr>questionsWrong := 1\<rparr>) \<and>
   gradeMember shortGame sampleQuestion (new_UserStatistics\<lparr>selectedAnswerIndex := 2\<rparr>) =
     (CORRECT, new_UserStatistics\<lparr>selectedAnswerIndex := 2, pointsChange := 25,
        questionsRight := 1, points := 25\<rparr>) \<and>
   gradeMember shortGame sampleQuestion (new_UserStatistics\<lparr>selectedAnswerIndex := 0\<rparr>) =
     (INCORRECT, new_UserStatistics\<lparr>selectedAnswerIndex := 0, pointsChange := -25,
        questionsWrong := 1, points := 0\<rparr>) \<and>
   getPointValue sampleQuestion = 25 \<and>
   (case sendAnswerResultsAndResetSelections (dispatchAnswer openRoom bob 2) of
      Inl _ \<Rightarrow> False
    | Inr r \<Rightarrow>
        userStats r ''bob'' =
          Some \<lparr>points = 25, pointsChange = 25, questionsRight = 1, questionsWrong = 0,
                selectedAnswerIndex = -1\<rparr> \<and>
        ToUser 2 (AnswerResult CORRECT) \<in> set (outbox r))"
proof -
  let ?r = "dispatchAnswer openRoom bob 2"
  have a: "gradeMember shortGame sampleQuestion new_UserStatistics =
     (SKIPPED, new_UserStatistics\<lparr>questionsWrong := 1\<rparr>) \<and>
   gradeMember shortGame sampleQuestion (new_UserStatistics\<lparr>selectedAnswerIndex := 2\<rparr>) =
     (CORRECT, new_UserStatistics\<lparr>selectedAnswerIndex := 2, pointsChange := 25,
        questionsRight := 1, points := 25\<rparr>) \<and>
   gradeMember shortGame sampleQuestion (new_UserStatistics\<lparr>selectedAnswerIndex := 0\<rparr>) =
     (INCORRECT, new_UserStatistics\<lparr>selectedAnswerIndex := 0, pointsChange := -25,
        questionsWrong := 1, points := 0\<rparr>) \<and>
   getPointValue sampleQuestion = 25"
    using grading_rules [where st = new_UserStatistics and cfg = shortGame and q = sampleQuestion
        and r = openRoom and r' = openRoom and u = bob, THEN conjunct1]
      grading_rules [where st = "new_UserStatistics\<lparr>selectedAnswerIndex := 2\<rparr>"
        and cfg = shortGame and q = sampleQuestion
        and r = openRoom and r' = openRoom and u = bob, THEN conjunct2, THEN conjunct1]
      grading_rules [where st = "new_UserStatistics\<lparr>selectedAnswerIndex := 0\<rparr>"
        and cfg = shortGame and q = sampleQuestion
        and r = openRoom and r' = openRoom and u = bob, THEN conjunct2, THEN conjunct2]
    by (simp add: new_UserStatistics_def shortGame_def sampleQuestion_def)
  obtain r1 where r1: "sendAnswerResultsAndResetSelections ?r = Inr r1"
    by (auto simp: room_defs)
  have h: "currentQuestion ?r = Some sampleQuestion" "bob \<in> set (users ?r)"
    "distinct (map nickname (users ?r))" "config ?r = shortGame"
    "userStats ?r (nickname bob) = Some (new_UserStatistics\<lparr>selectedAnswerIndex := 2\<rparr>)"
    by (simp_all add: room_defs)
  have b: "userStats r1 ''bob'' =
          Some \<lparr>points = 25, pointsChange = 25, questionsRight = 1, questionsWrong = 0,
                selectedAnswerIndex = -1\<rparr> \<and>
        ToUser 2 (AnswerResult CORRECT) \<in> set (outbox r1)"
    using grading_rules [where r = ?r and r' = r1 and q = sampleQuestion and u = bob
        and cfg = shortGame and st = "new_UserStatistics\<lparr>selectedAnswerIndex := 2\<rparr>",
        THEN conjunct2, THEN conjunct2, THEN conjunct2, THEN conjunct2, THEN conjunct2,
        THEN conjunct2, THEN conjunct2] r1 h a
    by (simp add: bob_def new_UserStatistics_def)
  from a b show ?thesis by (simp add: r1)
qed

subsection \<open>C7: submitting an answer\<close>

text \<open>
  C7: the answer listener records the submitted index when the member has no
  selection and the room accepts answers, and changes nothing else; with a selection
  recorded, with no statistics entry, or with \<open>acceptAnswers\<close> false it returns the
  room as it is. With \<open>acceptAnswers\<close> false an \<^verbatim>\<open>'answer'\<close> message leaves the room
  unchanged however many listeners run; with a listener registered the message does
  what one listener does.
\<close>

theorem answer_guard:
  "(userStats r (nickname u) = Some st \<and> selectedAnswerIndex st = -1 \<and> acceptAnswers r \<longrightarrow>
      answerListener r u n =
        r\<lparr>userStats := (userStats r)(nickname u \<mapsto> st\<lparr>selectedAnswerIndex := n\<rparr>)\<rparr>) \<and>
   (userStats r (nickname u) = Some st \<and>
    \<not> (selectedAnswerIndex st = -1 \<and> acceptAnswers r) \<longrightarrow> answerListener r u n = r) \<and>
   (userStats r (nickname u) = None \<longrightarrow> answerListener r u n = r) \<and>
   (\<not> acceptAnswers r \<longrightarrow>
      dispatchAnswer r u n = r \<and> deliver (Answer u n) r = Inr r) \<and>
   (uid u \<in> set (answerListeners r) \<longrightarrow> dispatchAnswer r u n = answerListener r u n)"
proof -
  have c: "\<not> acceptAnswers r \<Longrightarrow> dispatchAnswer r u n = r"
    unfolding dispatchAnswer_def by (rule foldl_answerListener_locked)
  have d: "\<not> acceptAnswers r \<Longrightarrow> deliver (Answer u n) r = Inr r"
    by (simp add: deliver_def c)
  show ?thesis
    using c d dispatchAnswer_listener [of u r n] by (auto simp: answerListener_def)
qed

text \<open>
  In the room of \<open>alice\<close> and \<open>bob\<close> with a question open: \<open>bob\<close>'s first answer is
  recorded, his second one is ignored, and nothing is recorded once the room is
  locked.
\<close>

theorem answer_guard_witness:
  "userStats (answerListener openRoom bob 2) ''bob'' =
     Some (new_UserStatistics\<lparr>selectedAnswerIndex := 2\<rparr>) \<and>
   answerListener (answerListener openRoom bob 2) bob 3 = answerListener openRoom bob 2 \<and>
   dispatchAnswer openRoom bob 2 = answerListener openRoom bob 2 \<and>
   dispatchAnswer (openRoom\<lparr>acceptAnswers := False\<rparr>) bob 1 = openRoom\<lparr>acceptAnswers := False\<rparr>"
proof -
  have s: "userStats openRoom (nickname bob) = Some new_UserStatistics"
    "selectedAnswerIndex new_UserStatistics = -1" "acceptAnswers openRoom"
    "uid bob \<in> set (answerListeners openRoom)" "nickname bob = ''bob''"
    by (simp_all add: openRoom_facts bob_def new_UserStatistics_def)
  have 1: "answerListener openRoom bob 2 =
      openRoom\<lparr>userStats := (userStats openRoom)(nickname bob \<mapsto>
        new_UserStatistics\<lparr>selectedAnswerIndex := 2\<rparr>)\<rparr>"
    using answer_guard [where r = openRoom and u = bob and st = new_UserStatistics and n = 2] s
    by simp
  have 2: "answerListener (answerListener openRoom bob 2) bob 3 = answerListener openRoom bob 2"
    using answer_guard [where r = "answerListener openRoom bob 2" and u = bob
        and st = "new_UserStatistics\<lparr>selectedAnswerIndex := 2\<rparr>" and n = 3]
    by (simp add: 1)
  have 3: "dispatchAnswer openRoom bob 2 = answerListener openRoom bob 2"
    using answer_guard [where r = openRoom and u = bob and n = 2] s by simp
  have 4: "dispatchAnswer (openRoom\<lparr>acceptAnswers := False\<rparr>) bob 1
      = openRoom\<lparr>acceptAnswers := False\<rparr>"
    using answer_guard [where r = "openRoom\<lparr>acceptAnswers := False\<rparr>" and u = bob and n = 1]
    by simp
  from 1 2 3 4 s show ?thesis by simp
qed

subsection \<open>C8: the question limit\<close>

text \<open>
  C8: whatever events reach a room after its creation, a room with
  \<open>questionCount = 0\<close> is never in the game-over condition; a room with
  \<open>questionCount = 3\<close> sees at most three grading passes, is in the game-over
  condition exactly when it has seen three, and has no callback outstanding from
  then on, whatever events follow: no further question is requested.
\<close>

theorem questionCount_game_over:
  assumes "run es (makeNewRoom i n d cfg) = Inr r'"
  shows "(questionCount cfg = 0 \<longrightarrow> \<not> isGameOver r') \<and>
         (questionCount cfg = 3 \<longrightarrow>
            gradingPasses es (makeNewRoom i n d cfg) \<le> 3 \<and>
            (isGameOver r' \<longleftrightarrow> gradingPasses es (makeNewRoom i n d cfg) = 3) \<and>
            (isGameOver r' \<longrightarrow> pending r' = None) \<and>
            (isGameOver r' \<and> run es' r' = Inr r'' \<longrightarrow> isGameOver r'' \<and> pending r'' = None))"
proof -
  let ?r0 = "makeNewRoom i n d cfg"
  have c: "config r' = cfg" using run_config [OF assms] by (simp add: makeNewRoom_facts)
  have a: "questionsAnswered r' = gradingPasses es ?r0"
    using run_answered [OF assms] by (simp add: makeNewRoom_facts)
  have zero: "questionCount cfg = 0 \<longrightarrow> \<not> isGameOver r'"
    by (simp add: isGameOver_def c)
  have three: "gradingPasses es ?r0 \<le> 3 \<and> (isGameOver r' \<longleftrightarrow> gradingPasses es ?r0 = 3) \<and>
      (isGameOver r' \<longrightarrow> pending r' = None) \<and>
      (isGameOver r' \<and> run es' r' = Inr r'' \<longrightarrow> isGameOver r'' \<and> pending r'' = None)"
    if q: "questionCount cfg = 3"
  proof -
    have i0: "gameInv ?r0" by (simp add: gameInv_def makeNewRoom_facts q)
    have i: "gameInv r'" using run_gameInv [OF assms i0] by (simp add: makeNewRoom_facts q)
    have later: "isGameOver r'' \<and> pending r'' = None" if g: "isGameOver r'" and f: "run es' r' = Inr r''"
    proof -
      have "gameInv r''" using run_gameInv [OF f i] by (simp add: c q)
      moreover have "config r'' = cfg" using run_config [OF f] c by simp
      moreover have "questionsAnswered r'' = questionsAnswered r' + gradingPasses es' r'"
        by (rule run_answered [OF f])
      ultimately show ?thesis using g by (auto simp: gameInv_def isGameOver_def c q)
    qed
    from i a later show ?thesis by (auto simp: gameInv_def isGameOver_def c q)
  qed
  from zero three show ?thesis by blast
qed

text \<open>
  A short game that \<open>bob\<close> joins: after two cycles the game is on and the next
  request is scheduled; after three the game is over and nothing is outstanding.
  The same three cycles with \<open>questionCount = 0\<close> do not end the game.
\<close>

theorem questionCount_game_over_witness:
  "(case run threeCycles (makeNewRoom ''abcde'' ''quiz'' False shortGame) of
      Inl _ \<Rightarrow> False | Inr r \<Rightarrow> isGameOver r \<and> pending r = None) \<and>
   gradingPasses threeCycles (makeNewRoom ''abcde'' ''quiz'' False shortGame) = 3 \<and>
   (case run twoCycles (makeNewRoom ''abcde'' ''quiz'' False shortGame) of
      Inl _ \<Rightarrow> False | Inr r \<Rightarrow> \<not> isGameOver r \<and> pending r = Some DelayedRequest) \<and>
   gradingPasses twoCycles (makeNewRoom ''abcde'' ''quiz'' False shortGame) = 2 \<and>
   (case run threeCycles (makeNewRoom ''abcde'' ''quiz'' False endlessGame) of
      Inl _ \<Rightarrow> False | Inr r \<Rightarrow> \<not> isGameOver r)"
proof -
  obtain r3 where r3: "run threeCycles (makeNewRoom ''abcde'' ''quiz'' False shortGame) = Inr r3"
    by (auto simp: room_defs)
  have p3: "gradingPasses threeCycles (makeNewRoom ''abcde'' ''quiz'' False shortGame) = 3"
    by (simp add: room_defs)
  obtain r2 where r2: "run twoCycles (makeNewRoom ''abcde'' ''quiz'' False shortGame) = Inr r2"
    by (auto simp: room_defs)
  have p2: "gradingPasses twoCycles (makeNewRoom ''abcde'' ''quiz'' False shortGame) = 2"
    by (simp add: room_defs)
  have d2: "pending r2 = Some DelayedRequest"
    using r2 by (auto simp: room_defs)
  obtain r0 where r0: "run threeCycles (makeNewRoom ''abcde'' ''quiz'' False endlessGame) = Inr r0"
    by (auto simp: room_defs)
  have q3: "questionCount shortGame = 3" and q0: "questionCount endlessGame = 0"
    by (simp_all add: shortGame_def endlessGame_def)
  have g3: "isGameOver r3 \<and> pending r3 = None"
    using questionCount_game_over [OF r3, of "[]" r3] p3 q3 by simp
  have g2: "\<not> isGameOver r2"
    using questionCount_game_over [OF r2, of "[]" r2] p2 q3 by simp
  have g0: "\<not> isGameOver r0"
    using questionCount_game_over [OF r0, of "[]" r0] q0 by simp
  from g3 g2 g0 p3 p2 d2 show ?thesis by (simp add: r3 r2 r0)
qed

subsection \<open>C9: points are never negative\<close>

text \<open>
  C9: after a grading pass on a room with a current question, every member has
  statistics with \<open>points \<ge> 0\<close>, whatever the statistics were before; in every
  state that a room reaches from its creation, every statistics entry has
  \<open>points \<ge> 0\<close>; and so has every entry of every \<^verbatim>\<open>'set user stats'\<close> and
  \<^verbatim>\<open>'game over'\<close> event that the room has sent.
\<close>

theorem points_never_negative:
  "(sendAnswerResultsAndResetSelections r = Inr r1 \<and> currentQuestion r = Some q \<and>
      u \<in> set (users r) \<longrightarrow> (\<exists>st. userStats r1 (nickname u) = Some st \<and> 0 \<le> points st)) \<and>
   (run es (makeNewRoom i n d cfg) = Inr r' \<and> userStats r' k = Some st' \<longrightarrow> 0 \<le> points st') \<and>
   (run es (makeNewRoom i n d cfg) = Inr r' \<and> e \<in> set (outbox r') \<and>
      (k', Some st'') \<in> set (statsSent e) \<longrightarrow> 0 \<le> points st'')"
proof -
  have "pointsOK (makeNewRoom i n d cfg)" by (simp add: pointsOK_def makeNewRoom_facts)
  then have "run es (makeNewRoom i n d cfg) = Inr r' \<Longrightarrow> pointsOK r' \<and> outboxOK r'"
    using makeNewRoom_outboxOK [of i n d cfg] by (rule run_obs [rotated])
  then show ?thesis
    using sendAnswerResults_graded [of r r1 q u]
    by (auto simp: pointsOK_def outboxOK_def entriesOK_def)
qed

text \<open>
  \<open>bob\<close> answers the first question of a short game wrong: the change is -25, the
  points are not negative, in the room and in the statistics sent to the room.
\<close>

theorem points_never_negative_witness:
  "(case run wrongAnswer (makeNewRoom ''abcde'' ''quiz'' False shortGame) of
      Inl _ \<Rightarrow> False
    | Inr r \<Rightarrow>
        (\<exists>st. userStats r ''bob'' = Some st \<and> pointsChange st = -25 \<and> 0 \<le> points st) \<and>
        ToRoom (SetUserStats [(''bob'', Some lostPoints)]) \<in> set (outbox r)) \<and>
   0 \<le> points lostPoints \<and>
   (case sendAnswerResultsAndResetSelections (dispatchAnswer openRoom bob 0) of
      Inl _ \<Rightarrow> False
    | Inr r \<Rightarrow> \<exists>st. userStats r ''bob'' = Some st \<and> 0 \<le> points st)"
proof -
  obtain r where r: "run wrongAnswer (makeNewRoom ''abcde'' ''quiz'' False shortGame) = Inr r"
    by (auto simp: room_defs)
  obtain st where st: "userStats r ''bob'' = Some st" "pointsChange st = -25"
    using r by (auto simp: room_defs)
  have sent: "ToRoom (SetUserStats [(''bob'', Some lostPoints)]) \<in> set (outbox r)"
    using r by (auto simp: room_defs lostPoints_def)
  obtain r1 where r1: "sendAnswerResultsAndResetSelections (dispatchAnswer openRoom bob 0) = Inr r1"
    by (auto simp: room_defs)
  have q: "currentQuestion (dispatchAnswer openRoom bob 0) = Some sampleQuestion"
    and u: "bob \<in> set (users (dispatchAnswer openRoom bob 0))"
    by (simp_all add: room_defs)
  from points_never_negative [where es = wrongAnswer and r' = r and k = "''bob''" and st' = st
      and i = "''abcde''" and n = "''quiz''" and d = False and cfg = shortGame
      and r = "dispatchAnswer openRoom bob 0" and ?r1.0 = r1 and q = sampleQuestion and u = bob
      and e = "ToRoom (SetUserStats [(''bob'', Some lostPoints)])" and k' = "''bob''"
      and st'' = lostPoints]
    r st r1 q u sent
  show ?thesis by (simp add: bob_def)
qed

subsection \<open>C10: removing a user who is not a member\<close>

text \<open>
  C10: for a user who is not in the room, \<^verbatim>\<open>findIndex\<close> is \<open>-1\<close> and
  \<^verbatim>\<open>splice(-1, 1)\<close> removes the last element of the member list, the member who
  joined last: \<^verbatim>\<open>removeUser\<close> leaves the member list without its last element
  (an empty list has none and stays empty).
\<close>

theorem removeUser_non_member:
  "\<not> isUserInRoom r u \<Longrightarrow>
     users (RoomBase_removeUser r u) = butlast (users r) \<and>
     users (removeUser r u) = butlast (users r) \<and>
     (users r = us @ [m] \<longrightarrow> users (removeUser r u) = us \<and> users (removeUser r u) \<noteq> users r)"
  by (auto simp: isUserInRoom_def RoomBase_removeUser_def removeUser_def Let_def emit_def
      sendUserStatsToAll_def deleteRoom_def splice1_last)

text \<open>\<open>carol\<close> is not in the room of \<open>alice\<close> and \<open>bob\<close>; removing her removes \<open>bob\<close>.\<close>

theorem removeUser_non_member_witness:
  "\<not> isUserInRoom openRoom carol \<and> users openRoom = [alice, bob] \<and>
   users (removeUser openRoom carol) = [alice]"
proof -
  have n: "\<not> isUserInRoom openRoom carol"
    by (simp add: isUserInRoom_def openRoom_facts alice_def bob_def carol_def)
  from removeUser_non_member [OF n, where us = "[alice]" and m = bob] n show ?thesis
    by (simp add: openRoom_facts)
qed

end
